theory Spec2Isabelle
  imports Complex_Main "HOL-Library.Word" "HOL-Library.Char_ord" "HOL-Library.List_Lexorder"
    "HOL-Library.Log_Nat"
begin

section \<open>The grid index of yt/geometry/grid_geometry_handler.py\<close>

text \<open>
  The definitions below follow class \<open>GridIndex\<close>. Python names are kept; a leading
  underscore is dropped (\<open>_chunk_io\<close> is \<open>chunk_io\<close>), and the grid attribute \<open>id\<close> is
  \<open>grid_id\<close>. Exceptions are values of type \<open>error\<close>; a method that may raise returns
  \<open>error + 'a\<close>. A generator returns the list of items it yielded and, when it ended by
  raising, the exception.
\<close>

datatype error =
    AssertionError
  | AttributeError string
  | IndexError
  | NotImplementedError
  | OverflowError
  | RuntimeError string
  | UnboundLocalError
  | ValueError

type_synonym 'x gen = "'x list \<times> error option"

type_synonym 'a vec3 = "'a \<times> 'a \<times> 'a"

subsection \<open>Grids, backing files, the index\<close>

text \<open>
  A grid object, with the attributes the index reads. \<open>Parent\<close> holds the parent's
  \<open>id\<close> and \<open>_id_offset\<close> (all that \<open>_get_grid_tree\<close> reads of it), \<open>Children\<close> the ids of
  the children. The coordinate type \<open>'a\<close> stands for float64; the functions below use
  its sum, its product and the cast of an integer, and no law of arithmetic.
\<close>

record 'a grid =
  grid_id :: int
  id_offset :: int
  filename :: string
  Level :: int
  Parent :: "(int \<times> int) option"
  Children :: "int list"
  ActiveDimensions :: "int vec3"
  LeftEdge :: "'a vec3"
  RightEdge :: "'a vec3"
  dds :: "'a vec3"
  start_index :: "int vec3"

text \<open>
  Modelled from the spec: the grid class, with its method \<open>get_global_startindex\<close> and
  its attribute \<open>dds\<close>, is not part of the sources. The specification describes the
  locking as taking "its cell width times its integer start-index offset": the cell
  width \<open>dds\<close> and the start index are values stored with the grid, and
  \<open>get_global_startindex()\<close> returns the stored start index.
\<close>

definition get_global_startindex :: "'a grid \<Rightarrow> int vec3" where
  "get_global_startindex g = start_index g"

text \<open>
  A backing file, as built by \<open>cls(self.dataset, self.io, fn, fi, grids_)\<close>: its filename,
  its index \<open>fi\<close> and the grid ids it stores.
\<close>

record data_file =
  df_filename :: string
  file_id :: int
  grid_id_values :: "int list"

text \<open>
  Modelled from the spec: \<open>GridTree\<close> (module \<open>grid_container\<close>) is not part of the
  sources. A tree is the record of the arrays it was built from: "built once from the
  synchronized arrays (edges, level, parent index, children count, dimensions)". The
  integer arrays have the element types \<open>_get_grid_tree\<close> allocates them with: int32
  for the dimensions, int64 for the rest.
\<close>

record 'a GridTree =
  gt_num_grids :: nat
  gt_left_edge :: "'a vec3 list"
  gt_right_edge :: "'a vec3 list"
  gt_dimensions :: "32 word vec3 list"
  gt_parent_ind :: "64 word list"
  gt_level :: "64 word list"
  gt_num_children :: "64 word list"

text \<open>
  One record of \<open>level_stats\<close>, and the index itself: the grid objects, the per-grid
  arrays of \<open>_initialize_grid_arrays\<close>, and what the methods below read of the dataset
  (\<open>domain_left_edge\<close>, \<open>_grid_chunk_size\<close>; \<open>None\<close> and 0 are both falsy).
  \<open>grid_tree\<close> is the attribute \<open>_grid_tree\<close>.
\<close>

record level_stat =
  numgrids :: "64 word"
  numcells :: "64 word"
  level :: "64 word"

record 'a GridIndex =
  grids :: "'a grid list"
  num_grids :: nat
  max_level :: int
  grid_dimensions :: "32 word vec3 list"
  grid_left_edge :: "'a vec3 list"
  grid_right_edge :: "'a vec3 list"
  grid_levels :: "32 word list"
  grid_tree :: "'a GridTree option"
  data_files :: "data_file list"
  level_stats :: "level_stat list"
  domain_left_edge :: "'a vec3"
  grid_chunk_size :: "int option"

subsection \<open>numpy indexing\<close>

text \<open>
  An integer index into an array of length \<open>n\<close>: a negative index counts from the end,
  anything outside \<open>-n .. n-1\<close> raises IndexError.
\<close>

definition np_index :: "nat \<Rightarrow> int \<Rightarrow> error + nat" where
  "np_index n i =
     (if 0 \<le> i \<and> i < int n then Inr (nat i)
      else if - int n \<le> i \<and> i < 0 then Inr (nat (i + int n))
      else Inl IndexError)"

text \<open>\<open>(xs[k] for k in ks)\<close>, consumed to the end.\<close>

fun np_take :: "'x list \<Rightarrow> int list \<Rightarrow> error + 'x list" where
  "np_take xs [] = Inr []"
| "np_take xs (k # ks) =
     (case np_index (length xs) k of
        Inl e \<Rightarrow> Inl e
      | Inr j \<Rightarrow> (case np_take xs ks of Inl e \<Rightarrow> Inl e | Inr ys \<Rightarrow> Inr (xs ! j # ys)))"

text \<open>\<open>for k in ks: arr[k] = v\<close>.\<close>

fun np_set_all :: "'x list \<Rightarrow> int list \<Rightarrow> 'x \<Rightarrow> error + 'x list" where
  "np_set_all arr [] v = Inr arr"
| "np_set_all arr (k # ks) v =
     (case np_index (length arr) k of
        Inl e \<Rightarrow> Inl e
      | Inr j \<Rightarrow> np_set_all (arr[j := v]) ks v)"

subsection \<open>Backing-file grouping: \<open>_setup_filenames\<close>\<close>

text \<open>
  \<open>self.dataset._grid_chunk_size or (2 << 32)\<close>.
\<close>

definition GRID_CHUNKSIZE :: "int option \<Rightarrow> int" where
  "GRID_CHUNKSIZE v =
     (case v of None \<Rightarrow> 8589934592
      | Some c \<Rightarrow> if c = 0 then 8589934592 else c)"

text \<open>
  \<open>(gs[pos:pos + size] for pos in range(0, len(gs), size))\<close> for \<open>size > 0\<close>; the
  argument \<open>n\<close> counts the runs still to take.
\<close>

fun runs_from :: "nat \<Rightarrow> nat \<Rightarrow> 'x list \<Rightarrow> 'x list list" where
  "runs_from 0 sz gs = []"
| "runs_from (Suc n) sz gs = take sz gs # runs_from n sz (drop sz gs)"

text \<open>
  The same for any step: \<open>range\<close> raises ValueError for step 0 and is empty for a
  negative step; for a positive step it has \<open>ceil(len(gs) / size)\<close> positions.
\<close>

definition runs :: "int \<Rightarrow> 'x list \<Rightarrow> error + 'x list list" where
  "runs sz gs =
     (if sz = 0 then Inl ValueError
      else if sz < 0 then Inr []
      else Inr (runs_from ((length gs + nat sz - 1) div nat sz) (nat sz) gs))"

text \<open>
  The first loop of \<open>_setup_filenames\<close>: the dictionary \<open>grids_by_file\<close>, as an
  association list in insertion order.
\<close>

fun dict_append :: "(string \<times> int list) list \<Rightarrow> string \<Rightarrow> int \<Rightarrow> (string \<times> int list) list" where
  "dict_append [] fn v = [(fn, [v])]"
| "dict_append ((k, vs) # d) fn v =
     (if k = fn then (k, vs @ [v]) # d else (k, vs) # dict_append d fn v)"

fun group_by_file :: "(string \<times> int list) list \<Rightarrow> 'a grid list \<Rightarrow> (string \<times> int list) list" where
  "group_by_file d [] = d"
| "group_by_file d (g # gs) = group_by_file (dict_append d (filename g) (grid_id g - id_offset g)) gs"

text \<open>
  The inner loop over the runs of one file, and the outer loop over
  \<open>sorted(grids_by_file.items())\<close>; \<open>fi\<close> is threaded through both.
\<close>

fun make_files :: "string \<Rightarrow> int \<Rightarrow> int list list \<Rightarrow> data_file list" where
  "make_files fn fi [] = []"
| "make_files fn fi (r # rs) =
     \<lparr>df_filename = fn, file_id = fi, grid_id_values = r\<rparr> # make_files fn (fi + 1) rs"

fun files_loop :: "int \<Rightarrow> int \<Rightarrow> (string \<times> int list) list \<Rightarrow> error + data_file list" where
  "files_loop chunksize fi [] = Inr []"
| "files_loop chunksize fi ((fn, gs) # rest) =
     (case runs chunksize gs of
        Inl e \<Rightarrow> Inl e
      | Inr rs \<Rightarrow>
          (case files_loop chunksize (fi + int (length rs)) rest of
             Inl e \<Rightarrow> Inl e
           | Inr dfs \<Rightarrow> Inr (make_files fn fi rs @ dfs)))"

definition setup_filenames :: "'a GridIndex \<Rightarrow> error + 'a GridIndex" where
  "setup_filenames s =
     (let grids_by_file = map (\<lambda>(fn, ids). (fn, sort ids)) (group_by_file [] (grids s));
          chunksize = GRID_CHUNKSIZE (grid_chunk_size s)
      in case files_loop chunksize 0 (sort_key fst grids_by_file) of
           Inl e \<Rightarrow> Inl e
         | Inr dfs \<Rightarrow> Inr (s\<lparr>data_files := dfs\<rparr>))"

subsection \<open>Level statistics: \<open>_initialize_level_stats\<close>\<close>

text \<open>
  \<open>grid_dimensions\<close> is an int32 array; \<open>prod(axis=1)\<close> and \<open>sum()\<close> accumulate in the
  platform integer, int64, as does \<open>np.sum\<close> of a comparison. \<open>MAXLEVEL\<close>
  (\<open>yt.utilities.definitions\<close>) is a parameter.
\<close>

definition prod_axis1 :: "32 word vec3 \<Rightarrow> 64 word" where
  "prod_axis1 d = (case d of (a, b, c) \<Rightarrow> signed a * signed b * signed c)"

definition blank_stats :: "nat \<Rightarrow> level_stat list" where
  "blank_stats MAXLEVEL =
     map (\<lambda>i. \<lparr>numgrids = 0, numcells = 0, level = of_nat i\<rparr>) [0..<MAXLEVEL]"

text \<open>
  The body of the loop for one \<open>level\<close> (non-negative, from \<open>range\<close>).
  \<open>self.level_stats[level]\<close> raises IndexError past the end of the record array, and the
  boolean mask \<open>li\<close> must be as long as \<open>grid_dimensions\<close>.
\<close>

definition level_stats_step ::
  "32 word list \<Rightarrow> 32 word vec3 list \<Rightarrow> level_stat list \<Rightarrow> int \<Rightarrow> error + level_stat list" where
  "level_stats_step levels dims stats lv =
     (if \<not> lv < int (length stats) then Inl IndexError
      else
        let n = of_nat (length (filter (\<lambda>l. sint l = lv) levels));
            stats1 = stats[nat lv := (stats ! nat lv)\<lparr>numgrids := n\<rparr>]
        in if length levels \<noteq> length dims then Inl IndexError
           else
             let li = map (\<lambda>l. sint l = lv) levels;
                 c = sum_list (map prod_axis1 (map snd (filter fst (zip li dims))))
             in Inr (stats1[nat lv := (stats1 ! nat lv)\<lparr>numcells := c\<rparr>]))"

fun level_stats_loop ::
  "32 word list \<Rightarrow> 32 word vec3 list \<Rightarrow> level_stat list \<Rightarrow> int list \<Rightarrow> error + level_stat list" where
  "level_stats_loop levels dims stats [] = Inr stats"
| "level_stats_loop levels dims stats (lv # lvs) =
     (case level_stats_step levels dims stats lv of
        Inl e \<Rightarrow> Inl e
      | Inr stats' \<Rightarrow> level_stats_loop levels dims stats' lvs)"

definition initialize_level_stats :: "nat \<Rightarrow> 'a GridIndex \<Rightarrow> error + 'a GridIndex" where
  "initialize_level_stats MAXLEVEL s =
     (case level_stats_loop (grid_levels s) (grid_dimensions s) (blank_stats MAXLEVEL)
             [0..max_level s] of
        Inl e \<Rightarrow> Inl e
      | Inr stats \<Rightarrow> Inr (s\<lparr>level_stats := stats\<rparr>))"

subsection \<open>Edge locking: \<open>lock_grids_to_parents\<close>\<close>

text \<open>numpy's elementwise sum and product of 3-vectors, and the cast of an integer vector.\<close>

definition vadd :: "('a::ring_1) vec3 \<Rightarrow> 'a vec3 \<Rightarrow> 'a vec3" where
  "vadd u v = (case u of (a, b, c) \<Rightarrow> case v of (d, e, f) \<Rightarrow> (a + d, b + e, c + f))"

definition vmul :: "('a::ring_1) vec3 \<Rightarrow> 'a vec3 \<Rightarrow> 'a vec3" where
  "vmul u v = (case u of (a, b, c) \<Rightarrow> case v of (d, e, f) \<Rightarrow> (a * d, b * e, c * f))"

definition vof_int :: "int vec3 \<Rightarrow> ('a::ring_1) vec3" where
  "vof_int u = (case u of (a, b, c) \<Rightarrow> (of_int a, of_int b, of_int c))"

text \<open>The two assignments to \<open>g.LeftEdge\<close> and \<open>g.RightEdge\<close>.\<close>

definition lock_grid :: "('a::ring_1) vec3 \<Rightarrow> 'a grid \<Rightarrow> 'a grid" where
  "lock_grid dle g =
     (let si = get_global_startindex g;
          g1 = g\<lparr>LeftEdge := vadd dle (vmul (dds g) (vof_int si))\<rparr>
      in g1\<lparr>RightEdge := vadd (LeftEdge g1) (vmul (vof_int (ActiveDimensions g1)) (dds g1))\<rparr>)"

text \<open>
  The loop \<open>for i, g in enumerate(self.grids)\<close>, from index \<open>i\<close> with \<open>n\<close> grids to go.
  The grid object is updated in place; the two array rows are written after it, and a
  row past the end of an array raises IndexError.
\<close>

fun lock_loop :: "nat \<Rightarrow> nat \<Rightarrow> ('a::ring_1) GridIndex \<Rightarrow> error + 'a GridIndex" where
  "lock_loop i 0 s = Inr s"
| "lock_loop i (Suc n) s =
     (let g = lock_grid (domain_left_edge s) (grids s ! i);
          s1 = s\<lparr>grids := (grids s)[i := g]\<rparr>
      in if \<not> i < length (grid_left_edge s1) then Inl IndexError
         else
           let s2 = s1\<lparr>grid_left_edge := (grid_left_edge s1)[i := LeftEdge g]\<rparr>
           in if \<not> i < length (grid_right_edge s2) then Inl IndexError
              else lock_loop (Suc i) n
                     (s2\<lparr>grid_right_edge := (grid_right_edge s2)[i := RightEdge g]\<rparr>))"

definition lock_grids_to_parents :: "('a::ring_1) GridIndex \<Rightarrow> error + 'a GridIndex" where
  "lock_grids_to_parents s = lock_loop 0 (length (grids s)) s"

subsection \<open>The memoized tree: \<open>_get_grid_tree\<close>, and \<open>_find_points\<close>\<close>

text \<open>
  The loop that fills the six arrays, allocated with \<open>num_grids\<close> zero rows; row \<open>i\<close>
  past the end raises IndexError. A value stored into an integer array is cast to the
  element type of the array, which wraps.
\<close>

definition as_int32 :: "int vec3 \<Rightarrow> 32 word vec3" where
  "as_int32 d = (case d of (a, b, c) \<Rightarrow> (of_int a, of_int b, of_int c))"

fun tree_loop :: "nat \<Rightarrow> 'a grid list \<Rightarrow> 'a GridTree \<Rightarrow> error + 'a GridTree" where
  "tree_loop i [] t = Inr t"
| "tree_loop i (g # gs) t =
     (if \<not> i < gt_num_grids t then Inl IndexError
      else tree_loop (Suc i) gs
             (t\<lparr>gt_left_edge := (gt_left_edge t)[i := LeftEdge g],
                gt_right_edge := (gt_right_edge t)[i := RightEdge g],
                gt_level := (gt_level t)[i := of_int (Level g)],
                gt_parent_ind := (gt_parent_ind t)[i :=
                   (case Parent g of None \<Rightarrow> - 1 | Some (pid, poff) \<Rightarrow> of_int (pid - poff))],
                gt_num_children := (gt_num_children t)[i := of_nat (length (Children g))],
                gt_dimensions := (gt_dimensions t)[i := as_int32 (ActiveDimensions g)]\<rparr>))"

definition build_grid_tree :: "('a::ring_1) GridIndex \<Rightarrow> error + 'a GridTree" where
  "build_grid_tree s =
     (let n = num_grids s
      in tree_loop 0 (grids s)
           \<lparr>gt_num_grids = n,
            gt_left_edge = replicate n (0, 0, 0),
            gt_right_edge = replicate n (0, 0, 0),
            gt_dimensions = replicate n (0, 0, 0),
            gt_parent_ind = replicate n 0,
            gt_level = replicate n 0,
            gt_num_children = replicate n 0\<rparr>)"

definition get_grid_tree :: "('a::ring_1) GridIndex \<Rightarrow> (error + 'a GridTree) \<times> 'a GridIndex" where
  "get_grid_tree s =
     (case grid_tree s of
        Some t \<Rightarrow> (Inr t, s)
      | None \<Rightarrow>
          (case build_grid_tree s of
             Inl e \<Rightarrow> (Inl e, s)
           | Inr t \<Rightarrow> (Inr t, s\<lparr>grid_tree := Some t\<rparr>)))"

text \<open>
  \<open>_find_points\<close>; the search \<open>MatchPointsToGrids(...).find_points_in_tree()\<close> is the
  parameter \<open>search\<close>. \<open>ensure_numpy_array\<close> keeps the elements of a sequence.
\<close>

definition find_points ::
  "('a GridTree \<Rightarrow> 'a list \<Rightarrow> 'a list \<Rightarrow> 'a list \<Rightarrow> int list) \<Rightarrow> ('a::ring_1) GridIndex \<Rightarrow>
   'a list \<Rightarrow> 'a list \<Rightarrow> 'a list \<Rightarrow> (error + ('a grid list \<times> int list)) \<times> 'a GridIndex" where
  "find_points search s x y z =
     (if \<not> (length x = length y \<and> length y = length z) then (Inl AssertionError, s)
      else
        case get_grid_tree s of
          (Inl e, s') \<Rightarrow> (Inl e, s')
        | (Inr t, s') \<Rightarrow>
            (let ind = search t x y z
             in case np_take (grids s') ind of
                  Inl e \<Rightarrow> (Inl e, s')
                | Inr gs \<Rightarrow> (Inr (gs, ind), s')))"

subsection \<open>Chunks and selectors\<close>

text \<open>
  A \<open>YTDataChunk(dobj, chunk_type, objs, data_size, cache, indexer)\<close>, and the data object
  \<open>dobj\<close> with the attributes the planner reads: \<open>selector\<close>, \<open>size\<close>, \<open>_current_chunk\<close>,
  \<open>_chunk_info\<close>. The objects of a chunk have type \<open>'o\<close>; the indexer (the selector object
  made by the tree) has type \<open>'ix\<close>.
\<close>

record ('ix, 'o) YTDataChunk =
  chunk_type :: string
  objs :: "'o list"
  data_size :: "int option"
  cache :: bool
  indexer :: "'ix option"

record ('ix, 'sel, 'o) data_object =
  selector :: 'sel
  dobj_size :: "int option"
  current_chunk :: "('ix, 'o) YTDataChunk option"
  chunk_info :: "'o list"

text \<open>
  The selector objects of \<open>grid_container\<close> are external; the planner uses four of their
  operations: \<open>grid_tree.selector(mask)\<close>, which makes an indexer from a tree and a grid
  mask, \<open>indexer.count(selector)\<close>, the keys of \<open>indexer.cell_count_by_grid\<close> in
  iteration order, and \<open>indexer.grid_order\<close>, taken to be an array of integers, which
  \<open>np.asarray\<close> leaves as it is. The memo that \<open>count\<close> keeps inside the object is not
  modelled.
\<close>

record ('a, 'ix, 'sel) selector_api =
  new_selector :: "'a GridTree \<Rightarrow> 8 word list \<Rightarrow> 'ix"
  count :: "'ix \<Rightarrow> 'sel \<Rightarrow> int"
  cell_count_keys :: "'ix \<Rightarrow> int list"
  grid_order :: "'ix \<Rightarrow> int list"

text \<open>The configuration values read through \<open>ytcfg.getint\<close>.\<close>

record ytcfg =
  global_parallel_size :: int
  chunk_size :: int

definition count_selection ::
  "('a, 'ix, 'sel) selector_api \<Rightarrow> ('ix, 'sel, 'o) data_object \<Rightarrow> 'g list option \<Rightarrow> 'ix option \<Rightarrow>
   error + int" where
  "count_selection api dobj grids_arg indexer_arg =
     (case indexer_arg of
        Some ix \<Rightarrow> Inr (count api ix (selector dobj))
      | None \<Rightarrow> Inl NotImplementedError)"

text \<open>\<open>getattr(dobj._current_chunk, "objs", dobj._chunk_info)\<close>.\<close>

definition chunk_objs :: "('ix, 'sel, 'o) data_object \<Rightarrow> 'o list" where
  "chunk_objs dobj = (case current_chunk dobj of Some c \<Rightarrow> objs c | None \<Rightarrow> chunk_info dobj)"

subsection \<open>Strategy "all": \<open>_chunk_all\<close>\<close>

definition chunk_all ::
  "('ix, 'sel, 'o) data_object \<Rightarrow> bool \<Rightarrow> 'ix option \<Rightarrow> ('ix, 'o) YTDataChunk gen" where
  "chunk_all dobj cache_arg indexer_arg =
     (let fobjs = chunk_objs dobj;
          ix = (case indexer_arg of
                  Some i \<Rightarrow> Some i
                | None \<Rightarrow> (case current_chunk dobj of Some c \<Rightarrow> indexer c | None \<Rightarrow> None))
      in ([\<lparr>chunk_type = ''all'', objs = fobjs, data_size = dobj_size dobj,
            cache = cache_arg, indexer = ix\<rparr>], None))"

subsection \<open>Strategy "spatial": \<open>_chunk_spatial\<close>\<close>

text \<open>
  The class attribute \<open>_preload_implemented\<close>. The loop takes the level of an object
  (\<open>g.Level\<close>) and \<open>retrieve_ghost_zones\<close> as parameters. The call
  \<open>self._count_selection(dobj, [og])\<close> passes no indexer.
\<close>

definition preload_implemented :: bool where
  "preload_implemented = False"

fun spatial_loop ::
  "('a, 'ix, 'sel) selector_api \<Rightarrow> ('o \<Rightarrow> int \<Rightarrow> 'o) \<Rightarrow> ('ix, 'sel, 'o) data_object \<Rightarrow> int \<Rightarrow>
   'o list \<Rightarrow> ('ix, 'o) YTDataChunk gen" where
  "spatial_loop api retrieve_ghost_zones dobj ngz [] = ([], None)"
| "spatial_loop api retrieve_ghost_zones dobj ngz (og # rest) =
     (let g = (if ngz > 0 then retrieve_ghost_zones og ngz else og)
      in case count_selection api dobj (Some [og]) None of
           Inl e \<Rightarrow> ([], Some e)
         | Inr sz \<Rightarrow>
             if sz = 0 then spatial_loop api retrieve_ghost_zones dobj ngz rest
             else
               (case spatial_loop api retrieve_ghost_zones dobj ngz rest of
                  (cs, e) \<Rightarrow>
                    (\<lparr>chunk_type = ''spatial'', objs = [g], data_size = Some sz,
                      cache = False, indexer = None\<rparr> # cs, e)))"

text \<open>
  \<open>sort\<close> is \<open>None\<close> or a string; any other string leaves \<open>giter\<close> unbound.
  \<open>ChunkDataCache\<close> (module \<open>geometry_handler\<close>) iterates over the objects it was given;
  \<open>_split_fields\<close> is taken to return the preload fields as they are.
\<close>

definition ChunkDataCache :: "'o list \<Rightarrow> string list \<Rightarrow> 'o list" where
  "ChunkDataCache giter preload_fields = giter"

definition chunk_spatial ::
  "('a, 'ix, 'sel) selector_api \<Rightarrow> ('o \<Rightarrow> int) \<Rightarrow> ('o \<Rightarrow> int \<Rightarrow> 'o) \<Rightarrow> ('ix, 'sel, 'o) data_object \<Rightarrow>
   int \<Rightarrow> string option \<Rightarrow> string list \<Rightarrow> ('ix, 'o) YTDataChunk gen" where
  "chunk_spatial api Level_of retrieve_ghost_zones dobj ngz sort_arg preload_fields =
     (let gobjs = chunk_objs dobj;
          giter =
            (if sort_arg = Some ''+level'' \<or> sort_arg = Some ''level''
               then Some (sort_key Level_of gobjs)
             else if sort_arg = Some ''-level''
               then Some (sort_key (\<lambda>g. - Level_of g) gobjs)
             else if sort_arg = None then Some gobjs
             else None)
      in case giter of
           None \<Rightarrow> ([], Some UnboundLocalError)
         | Some gi \<Rightarrow>
             spatial_loop api retrieve_ghost_zones dobj ngz
               (if preload_implemented \<and> length preload_fields > 0 \<and> ngz = 0
                then ChunkDataCache gi preload_fields else gi))"

subsection \<open>float64 arithmetic\<close>

text \<open>
  The batch size of mode \<open>auto\<close> goes through float64. A float64 is represented by the
  real number it stands for. \<open>rne N D\<close> is the quotient of \<open>N \<ge> 0\<close> by \<open>D > 0\<close> rounded to
  the nearest integer, a tie to the even one. \<open>round_int i\<close> is the float64 nearest to
  the integer \<open>i\<close>: \<open>i\<close> itself when it has at most 53 bits, and otherwise its leading
  53 bits, rounded. \<open>round53 N D\<close> is the float64 nearest to \<open>N / D\<close>: the quotient is
  scaled by a power of two so that its integer part has 53 bits, rounded, and scaled
  back. The exponent range of float64 is not built in: the functions below test for
  \<open>2^1024\<close> where the code overflows.
\<close>

definition rne :: "int \<Rightarrow> int \<Rightarrow> int" where
  "rne N D =
     (let q = N div D; r = N mod D
      in if 2 * r < D then q
         else if 2 * r > D then q + 1
         else if even q then q else q + 1)"

definition round_int :: "int \<Rightarrow> int" where
  "round_int i =
     (let b = nat (bitlen \<bar>i\<bar>)
      in if b \<le> 53 then i
         else sgn i * (rne \<bar>i\<bar> (2 ^ (b - 53)) * 2 ^ (b - 53)))"

definition round53 :: "int \<Rightarrow> int \<Rightarrow> real" where
  "round53 N D =
     (let bN = nat (bitlen N); bD = nat (bitlen D);
          c = (if D * 2 ^ bN \<le> N * 2 ^ bD then 0 else 1);
          m = rne (N * 2 ^ (52 + bD + c)) (D * 2 ^ bN)
      in real_of_int (m * 2 ^ bN) / real_of_int (2 ^ (52 + bD + c)))"

text \<open>The float64 quotient of two float64 values that are integers, the divisor positive.\<close>

definition round_quot :: "int \<Rightarrow> int \<Rightarrow> real" where
  "round_quot p d = (if p < 0 then - round53 (- p) d else round53 p d)"

text \<open>
  Python's conversion of an integer to a float, which raises OverflowError where the
  nearest float64 would not be finite.
\<close>

definition py_float :: "int \<Rightarrow> error + int" where
  "py_float i = (if 2 ^ 1024 \<le> \<bar>round_int i\<bar> then Inl OverflowError else Inr (round_int i))"

subsection \<open>Strategy "io": \<open>_chunk_io\<close>\<close>

text \<open>
  The batch size of mode \<open>auto\<close>, lines 419 to 421: \<open>nproc\<close> is the float of the
  configured worker count, the product \<open>GRID_CHUNKSIZE * nproc\<close> and its quotient by
  \<open>chunk_ngrids\<close> are float64 operations on the converted integers, \<open>np.ceil\<close> gives the
  least integer above, \<open>astype("int")\<close> casts it to int64 (numpy's default integer,
  taken to be 64 bits wide), and \<open>GRID_CHUNKSIZE // chunking_factor\<close> is numpy's floor
  division in int64, which gives 0 for a zero divisor.

  Where the result of numpy depends on the platform or on its version, the batch size
  is what the parameter \<open>platform\<close> gives for the three integers: when the product is
  infinite, when the ceiling or \<open>GRID_CHUNKSIZE\<close> lies outside int64, when the floor
  division overflows (\<open>-2^63\<close> by \<open>-1\<close>), and for a list of \<open>2^63\<close> elements or more,
  which Python does not have.
\<close>

definition floor_divide :: "int \<Rightarrow> int \<Rightarrow> int" where
  "floor_divide a b = (if b = 0 then 0 else a div b)"

definition in_int64 :: "int \<Rightarrow> bool" where
  "in_int64 v \<longleftrightarrow> - (2 ^ 63) \<le> v \<and> v < 2 ^ 63"

definition auto_size :: "(int \<Rightarrow> int \<Rightarrow> int \<Rightarrow> error + int) \<Rightarrow> int \<Rightarrow> int \<Rightarrow> int \<Rightarrow> error + int" where
  "auto_size platform chunksize parallel_size chunk_ngrids =
     (case py_float parallel_size of
        Inl e \<Rightarrow> Inl e
      | Inr nproc \<Rightarrow>
          (case py_float chunksize of
             Inl e \<Rightarrow> Inl e
           | Inr cs \<Rightarrow>
               (let prod = round_int (cs * nproc)
                in if 2 ^ 1024 \<le> \<bar>prod\<bar> \<or> \<not> chunk_ngrids < 2 ^ 63
                   then platform chunksize parallel_size chunk_ngrids
                   else
                     (let chunking_factor = \<lceil>round_quot prod (round_int chunk_ngrids)\<rceil>
                      in if \<not> in_int64 chunking_factor \<or> \<not> in_int64 chunksize
                            \<or> (chunksize = - (2 ^ 63) \<and> chunking_factor = - 1)
                         then platform chunksize parallel_size chunk_ngrids
                         else Inr (max (floor_divide chunksize chunking_factor) 1)))))"

text \<open>
  The batch size for every mode. With no grid selected, mode \<open>auto\<close> reads
  \<open>self._grid_chunksize\<close>, an attribute that the class never assigns.
\<close>

definition chunk_io_size ::
  "(int \<Rightarrow> int \<Rightarrow> int \<Rightarrow> error + int) \<Rightarrow> ytcfg \<Rightarrow> int option \<Rightarrow> 'g list \<Rightarrow> string \<Rightarrow> error + int" where
  "chunk_io_size platform cfg gcs gobjs chunk_sizing =
     (let chunksize = GRID_CHUNKSIZE gcs
      in if chunk_sizing = ''auto'' then
           (let chunk_ngrids = int (length gobjs)
            in if chunk_ngrids > 0
               then auto_size platform chunksize (global_parallel_size cfg) chunk_ngrids
               else Inl (AttributeError ''_grid_chunksize''))
         else if chunk_sizing = ''config_file'' then Inr (chunk_size cfg)
         else if chunk_sizing = ''just_one'' then Inr 1
         else if chunk_sizing = ''old'' then Inr chunksize
         else Inl (RuntimeError chunk_sizing))"

text \<open>
  One step of the inner loop is recorded as the batch \<open>g_indices\<close>, the chunk that is
  yielded, and the size given to \<open>self.io.preload\<close> (\<open>4.0 * size\<close>). The loops pass the
  index along: \<open>self.grid_tree\<close> builds and memoizes the tree on its first use, and
  raises where the build does. The lookup \<open>self.grids[np.asarray(indexer2.grid_order)]\<close>
  is made for every batch, though its result is not used.
\<close>

record 'ix io_step =
  g_indices :: "int list"
  dc :: "('ix, data_file) YTDataChunk"
  preload_size :: int

fun io_batches ::
  "('a::ring_1, 'ix, 'sel) selector_api \<Rightarrow> 'a GridIndex \<Rightarrow> ('ix, 'sel, data_file) data_object \<Rightarrow>
   bool \<Rightarrow> int \<Rightarrow> data_file \<Rightarrow> int list list \<Rightarrow> 'ix io_step gen \<times> 'a GridIndex" where
  "io_batches api s dobj cache_arg sz f [] = (([], None), s)"
| "io_batches api s dobj cache_arg sz f (b # bs) =
     (case np_set_all (replicate (length (grids s)) 0) b 1 of
        Inl e \<Rightarrow> (([], Some e), s)
      | Inr this_loop \<Rightarrow>
          (case get_grid_tree s of
             (Inl e, s1) \<Rightarrow> (([], Some e), s1)
           | (Inr t, s1) \<Rightarrow>
               (let indexer2 = new_selector api t this_loop
                in case count_selection api dobj (None :: data_file list option) (Some indexer2) of
                     Inl e \<Rightarrow> (([], Some e), s1)
                   | Inr csize \<Rightarrow>
                       (case np_take (grids s1) (grid_order api indexer2) of
                          Inl e \<Rightarrow> (([], Some e), s1)
                        | Inr gl \<Rightarrow>
                            (case io_batches api s1 dobj cache_arg sz f bs of
                               ((steps, e), s2) \<Rightarrow>
                                 ((\<lparr>g_indices = b,
                                    dc = \<lparr>chunk_type = ''io'', objs = [f],
                                          data_size = Some csize,
                                          cache = cache_arg, indexer = Some indexer2\<rparr>,
                                    preload_size = 4 * sz\<rparr> # steps, e), s2))))))"

fun io_files ::
  "('a::ring_1, 'ix, 'sel) selector_api \<Rightarrow> 'a GridIndex \<Rightarrow> ('ix, 'sel, data_file) data_object \<Rightarrow>
   bool \<Rightarrow> int \<Rightarrow> data_file list \<Rightarrow> 'ix io_step gen \<times> 'a GridIndex" where
  "io_files api s dobj cache_arg sz [] = (([], None), s)"
| "io_files api s dobj cache_arg sz (f # fs) =
     (case runs sz (grid_id_values f) of
        Inl e \<Rightarrow> (([], Some e), s)
      | Inr bs \<Rightarrow>
          (case io_batches api s dobj cache_arg sz f bs of
             ((steps, Some e), s1) \<Rightarrow> ((steps, Some e), s1)
           | ((steps, None), s1) \<Rightarrow>
               (case io_files api s1 dobj cache_arg sz fs of
                  ((steps', e), s2) \<Rightarrow> ((steps @ steps', e), s2))))"

text \<open>
  \<open>_chunk_io\<close> with the index as the generator leaves it, and the generator alone.
\<close>

definition chunk_io_state ::
  "(int \<Rightarrow> int \<Rightarrow> int \<Rightarrow> error + int) \<Rightarrow> ('a::ring_1, 'ix, 'sel) selector_api \<Rightarrow> ytcfg \<Rightarrow>
   'a GridIndex \<Rightarrow> ('ix, 'sel, data_file) data_object \<Rightarrow> bool \<Rightarrow> string \<Rightarrow>
   'ix io_step gen \<times> 'a GridIndex" where
  "chunk_io_state platform api cfg s dobj cache_arg chunk_sizing =
     (let fobjs = chunk_objs dobj
      in case current_chunk dobj of
           None \<Rightarrow> (([], Some (AttributeError ''_indexer'')), s)
         | Some cc \<Rightarrow>
             (case indexer cc of
                None \<Rightarrow> (([], Some (AttributeError ''cell_count_by_grid'')), s)
              | Some ix \<Rightarrow>
                  (case np_take (grids s) (cell_count_keys api ix) of
                     Inl e \<Rightarrow> (([], Some e), s)
                   | Inr gl \<Rightarrow>
                       (let gobjs = sort_key grid_id gl
                        in case chunk_io_size platform cfg (grid_chunk_size s) gobjs chunk_sizing of
                             Inl e \<Rightarrow> (([], Some e), s)
                           | Inr sz \<Rightarrow> io_files api s dobj cache_arg sz fobjs))))"

definition chunk_io ::
  "(int \<Rightarrow> int \<Rightarrow> int \<Rightarrow> error + int) \<Rightarrow> ('a::ring_1, 'ix, 'sel) selector_api \<Rightarrow> ytcfg \<Rightarrow>
   'a GridIndex \<Rightarrow> ('ix, 'sel, data_file) data_object \<Rightarrow> bool \<Rightarrow> string \<Rightarrow> 'ix io_step gen" where
  "chunk_io platform api cfg s dobj cache_arg chunk_sizing =
     fst (chunk_io_state platform api cfg s dobj cache_arg chunk_sizing)"

subsection \<open>The specification's wording\<close>

text \<open>
  The specification speaks of a list "split into consecutive runs" of a bounded size, and
  gives the batch size of mode \<open>auto\<close> as the formula
  \<open>max(default_chunk_size / ceil(default_chunk_size * worker_count / n), 1)\<close>. Both are
  written down here as the specification words them, over the integers and the reals,
  to be compared with \<open>runs\<close> and with the float64 computation \<open>auto_size\<close> above. The
  bucket of a filename is the list of the ids, less their offsets, of the grids that
  declare it; the counts of a level are the number of its grids and the sum of the
  products of their three dimensions, as unbounded integers.
\<close>

function split_runs :: "nat \<Rightarrow> 'x list \<Rightarrow> 'x list list" where
  "split_runs sz gs = (if sz = 0 \<or> gs = [] then [] else take sz gs # split_runs sz (drop sz gs))"
  by pat_completeness auto
termination
  by (relation "measure (\<lambda>(sz, gs). length gs)") auto

declare split_runs.simps [simp del]

definition auto_batch_size :: "int \<Rightarrow> int \<Rightarrow> int \<Rightarrow> int" where
  "auto_batch_size default_chunk_size worker_count ngrids =
     max (default_chunk_size div \<lceil>real_of_int (default_chunk_size * worker_count) / real_of_int ngrids\<rceil>) 1"

definition ids_of :: "string \<Rightarrow> 'a grid list \<Rightarrow> int list" where
  "ids_of fn gs = map (\<lambda>g. grid_id g - id_offset g) (filter (\<lambda>g. filename g = fn) gs)"

definition level_grids :: "32 word list \<Rightarrow> int \<Rightarrow> nat" where
  "level_grids levels lv = length (filter (\<lambda>l. sint l = lv) levels)"

definition cells :: "32 word vec3 \<Rightarrow> int" where
  "cells d = (case d of (a, b, c) \<Rightarrow> sint a * sint b * sint c)"

definition level_cells :: "32 word list \<Rightarrow> 32 word vec3 list \<Rightarrow> int \<Rightarrow> int" where
  "level_cells levels dims lv =
     sum_list (map (\<lambda>p. cells (snd p)) (filter (\<lambda>p. sint (fst p) = lv) (zip levels dims)))"

text \<open>
  The state of the index in which the first \<open>i\<close> grids are locked: locking them again
  changes nothing, and their rows of the edge arrays hold their edges.
\<close>

definition locked_upto :: "('a::ring_1) GridIndex \<Rightarrow> nat \<Rightarrow> bool" where
  "locked_upto s i \<longleftrightarrow>
     (\<forall>j<i. lock_grid (domain_left_edge s) (grids s ! j) = grids s ! j
            \<and> grid_left_edge s ! j = LeftEdge (grids s ! j)
            \<and> grid_right_edge s ! j = RightEdge (grids s ! j))"

subsection \<open>Example data\<close>

text \<open>
  An index of eight level-0 grids of \<open>8 \<times> 8 \<times> 8\<close> cells in two backing files, a selector
  interface whose indexer is the grid mask itself (every selected grid counts 512
  cells), and data objects that select all grids or none. \<open>shuffled_index\<close> lists the
  same grids out of order, with at most three grids to a file record.
\<close>

definition example_grid :: "int \<Rightarrow> string \<Rightarrow> int \<Rightarrow> real grid" where
  "example_grid i fn lv =
     \<lparr>grid_id = i, id_offset = 0, filename = fn, Level = lv, Parent = None, Children = [],
      ActiveDimensions = (8, 8, 8), LeftEdge = (0, 0, 0), RightEdge = (1, 1, 1),
      dds = (1 / 8, 1 / 8, 1 / 8), start_index = (0, 0, 0)\<rparr>"

definition example_api :: "(real, 8 word list, unit) selector_api" where
  "example_api =
     \<lparr>new_selector = (\<lambda>t m. m),
      count = (\<lambda>m u. 512 * int (length (filter (\<lambda>b. b \<noteq> 0) m))),
      cell_count_keys = (\<lambda>m. map (\<lambda>p. int (fst p)) (filter (\<lambda>p. snd p \<noteq> 0) (enumerate 0 m))),
      grid_order = (\<lambda>m. map (\<lambda>p. int (fst p)) (filter (\<lambda>p. snd p \<noteq> 0) (enumerate 0 m)))\<rparr>"

definition example_files :: "data_file list" where
  "example_files =
     [\<lparr>df_filename = ''a'', file_id = 0, grid_id_values = [0, 1, 2, 3]\<rparr>,
      \<lparr>df_filename = ''b'', file_id = 1, grid_id_values = [4, 5, 6, 7]\<rparr>]"

definition example_index :: "real GridIndex" where
  "example_index =
     \<lparr>grids = map (\<lambda>i. example_grid i (if i < 4 then ''a'' else ''b'') 0) [0, 1, 2, 3, 4, 5, 6, 7],
      num_grids = 8, max_level = 0,
      grid_dimensions = replicate 8 (8, 8, 8),
      grid_left_edge = replicate 8 (0, 0, 0),
      grid_right_edge = replicate 8 (1, 1, 1),
      grid_levels = replicate 8 0,
      grid_tree = None,
      data_files = example_files,
      level_stats = [],
      domain_left_edge = (0, 0, 0),
      grid_chunk_size = Some 8\<rparr>"

definition example_dobj :: "(8 word list, unit, data_file) data_object" where
  "example_dobj =
     \<lparr>selector = (), dobj_size = Some 4096,
      current_chunk = Some \<lparr>chunk_type = ''all'', objs = example_files, data_size = Some 4096,
                             cache = False, indexer = Some (replicate 8 1)\<rparr>,
      chunk_info = example_files\<rparr>"

definition example_cfg :: ytcfg where
  "example_cfg = \<lparr>global_parallel_size = 2, chunk_size = 3\<rparr>"

definition empty_selection_dobj :: "(8 word list, unit, data_file) data_object" where
  "empty_selection_dobj =
     \<lparr>selector = (), dobj_size = Some 0,
      current_chunk = Some \<lparr>chunk_type = ''all'', objs = [], data_size = Some 0,
                             cache = False, indexer = Some (replicate 8 0)\<rparr>,
      chunk_info = []\<rparr>"

definition example_step :: "int \<Rightarrow> data_file \<Rightarrow> 8 word list \<Rightarrow> 8 word list io_step" where
  "example_step sz f m =
     \<lparr>g_indices = map (\<lambda>p. int (fst p)) (filter (\<lambda>p. snd p \<noteq> 0) (enumerate 0 m)),
      dc = \<lparr>chunk_type = ''io'', objs = [f],
            data_size = Some (512 * int (length (filter (\<lambda>b. b \<noteq> 0) m))),
            cache = True, indexer = Some m\<rparr>,
      preload_size = 4 * sz\<rparr>"

definition shuffled_index :: "real GridIndex" where
  "shuffled_index =
     example_index\<lparr>grids := [example_grid 5 ''b'' 0, example_grid 2 ''a'' 0, example_grid 7 ''b'' 0,
                             example_grid 0 ''a'' 0, example_grid 3 ''a'' 0, example_grid 6 ''b'' 0,
                             example_grid 1 ''a'' 0, example_grid 4 ''b'' 0],
                   grid_chunk_size := Some 3, data_files := []\<rparr>"

text \<open>
  A platform on which every computation that numpy leaves open gives the batch size 1.
  An index of two grids in one backing file whose configured chunk size, \<open>2^54 + 6\<close>, is
  not a float64, with both grids selected and one worker.
\<close>

definition example_platform :: "int \<Rightarrow> int \<Rightarrow> int \<Rightarrow> error + int" where
  "example_platform chunksize parallel_size chunk_ngrids = Inr 1"

definition wide_index :: "real GridIndex" where
  "wide_index =
     \<lparr>grids = [example_grid 0 ''a'' 0, example_grid 1 ''a'' 0],
      num_grids = 2, max_level = 0,
      grid_dimensions = replicate 2 (8, 8, 8),
      grid_left_edge = replicate 2 (0, 0, 0),
      grid_right_edge = replicate 2 (1, 1, 1),
      grid_levels = replicate 2 0,
      grid_tree = None,
      data_files = [\<lparr>df_filename = ''a'', file_id = 0, grid_id_values = [0, 1]\<rparr>],
      level_stats = [],
      domain_left_edge = (0, 0, 0),
      grid_chunk_size = Some 18014398509481990\<rparr>"

definition wide_dobj :: "(8 word list, unit, data_file) data_object" where
  "wide_dobj =
     \<lparr>selector = (), dobj_size = Some 1024,
      current_chunk = Some \<lparr>chunk_type = ''all'', objs = data_files wide_index,
                             data_size = Some 1024, cache = False, indexer = Some [1, 1]\<rparr>,
      chunk_info = data_files wide_index\<rparr>"

definition one_worker_cfg :: ytcfg where
  "one_worker_cfg = \<lparr>global_parallel_size = 1, chunk_size = 3\<rparr>"

text \<open>
  An index of one grid whose stored edges are slightly off, the tree built from it, the
  index with that tree memoized, and the two after the edges were recomputed.
\<close>

definition drifted_grid :: "real grid" where
  "drifted_grid =
     \<lparr>grid_id = 1, id_offset = 1, filename = ''a'', Level = 0, Parent = None, Children = [],
      ActiveDimensions = (8, 8, 8), LeftEdge = (1 / 1000, 0, 0), RightEdge = (1, 1, 1001 / 1000),
      dds = (1 / 8, 1 / 8, 1 / 8), start_index = (0, 0, 0)\<rparr>"

definition drifted_index :: "real GridIndex" where
  "drifted_index =
     \<lparr>grids = [drifted_grid], num_grids = 1, max_level = 0,
      grid_dimensions = [(8, 8, 8)],
      grid_left_edge = [(1 / 1000, 0, 0)],
      grid_right_edge = [(1, 1, 1001 / 1000)],
      grid_levels = [0],
      grid_tree = None, data_files = [], level_stats = [],
      domain_left_edge = (0, 0, 0), grid_chunk_size = None\<rparr>"

definition locked_index :: "real GridIndex" where
  "locked_index =
     drifted_index\<lparr>grids := [drifted_grid\<lparr>LeftEdge := (0, 0, 0), RightEdge := (1, 1, 1)\<rparr>],
       grid_left_edge := [(0, 0, 0)], grid_right_edge := [(1, 1, 1)]\<rparr>"

definition drifted_tree :: "real GridTree" where
  "drifted_tree =
     \<lparr>gt_num_grids = 1, gt_left_edge = [(1 / 1000, 0, 0)], gt_right_edge = [(1, 1, 1001 / 1000)],
      gt_dimensions = [(8, 8, 8)], gt_parent_ind = [- 1], gt_level = [0],
      gt_num_children = [0]\<rparr>"

definition built_index :: "real GridIndex" where
  "built_index = drifted_index\<lparr>grid_tree := Some drifted_tree\<rparr>"

definition relocked_index :: "real GridIndex" where
  "relocked_index = locked_index\<lparr>grid_tree := Some drifted_tree\<rparr>"

text \<open>
  The hierarchy of the specification's example: three level-0 grids of \<open>8 \<times> 8 \<times> 8\<close> cells
  and two level-1 grids of \<open>4 \<times> 4 \<times> 4\<close> cells.
\<close>

definition example_hierarchy :: "real GridIndex" where
  "example_hierarchy =
     \<lparr>grids = [], num_grids = 5, max_level = 1,
      grid_dimensions = [(8, 8, 8), (8, 8, 8), (8, 8, 8), (4, 4, 4), (4, 4, 4)],
      grid_left_edge = replicate 5 (0, 0, 0),
      grid_right_edge = replicate 5 (1, 1, 1),
      grid_levels = [0, 0, 0, 1, 1],
      grid_tree = None, data_files = [], level_stats = [],
      domain_left_edge = (0, 0, 0), grid_chunk_size = None\<rparr>"

section \<open>Properties\<close>

subsection \<open>Runs\<close>

lemma ceil_div_step:
  assumes "0 < sz" "0 < (n::nat)"
  shows "(n + sz - 1) div sz = Suc ((n - sz + sz - 1) div sz)"
proof (cases "sz \<le> n")
  case True
  then have "n + sz - 1 = (n - sz + sz - 1) + sz" using assms by simp
  then show ?thesis using assms by (metis div_add_self2 less_numeral_extra(3) Suc_eq_plus1)
next
  case False
  then have a: "n - sz + sz - 1 < sz" using assms by simp
  have "n + sz - 1 = (n - 1) + sz" using assms by simp
  moreover have "n - 1 < sz" using False by simp
  ultimately have "(n + sz - 1) div sz = Suc 0" using assms
    by (metis div_add_self2 div_less less_numeral_extra(3) Suc_eq_plus1 add_0)
  then show ?thesis using a by simp
qed

lemma split_runs_Nil [simp]: "split_runs sz [] = []"
  by (simp add: split_runs.simps)

lemma split_runs_zero [simp]: "split_runs 0 gs = []"
  by (simp add: split_runs.simps)

lemma split_runs_step:
  "0 < sz \<Longrightarrow> gs \<noteq> [] \<Longrightarrow> split_runs sz gs = take sz gs # split_runs sz (drop sz gs)"
  by (subst split_runs.simps) simp

lemma runs_from_split_runs:
  "0 < sz \<Longrightarrow> runs_from ((length gs + sz - 1) div sz) sz gs = split_runs sz gs"
proof (induction sz gs rule: split_runs.induct)
  case (1 sz gs)
  show ?case
  proof (cases "gs = []")
    case True
    then show ?thesis using "1.prems" by simp
  next
    case False
    then have "(length gs + sz - 1) div sz = Suc ((length (drop sz gs) + sz - 1) div sz)"
      using ceil_div_step[of sz "length gs"] "1.prems" by simp
    then show ?thesis using "1.IH" "1.prems" False
      by (simp add: split_runs_step)
  qed
qed

lemma runs_pos: "0 < sz \<Longrightarrow> runs sz gs = Inr (split_runs (nat sz) gs)"
  using runs_from_split_runs[of "nat sz" gs] by (simp add: runs_def)

lemma split_runs_length: "b \<in> set (split_runs sz gs) \<Longrightarrow> 0 < length b \<and> length b \<le> sz"
proof (induction sz gs rule: split_runs.induct)
  case (1 sz gs)
  show ?case
  proof (cases "sz = 0 \<or> gs = []")
    case True
    then show ?thesis using "1.prems" by auto
  next
    case False
    then show ?thesis using 1 by (auto simp: split_runs_step)
  qed
qed

lemma split_runs_concat: "0 < sz \<Longrightarrow> concat (split_runs sz gs) = gs"
proof (induction sz gs rule: split_runs.induct)
  case (1 sz gs)
  show ?case
  proof (cases "gs = []")
    case True
    then show ?thesis by simp
  next
    case False
    then show ?thesis using 1 by (simp add: split_runs_step)
  qed
qed

lemma split_runs_set: "b \<in> set (split_runs sz gs) \<Longrightarrow> set b \<subseteq> set gs"
proof (induction sz gs rule: split_runs.induct)
  case (1 sz gs)
  show ?case
  proof (cases "sz = 0 \<or> gs = []")
    case True
    then show ?thesis using "1.prems" by auto
  next
    case False
    then show ?thesis using 1 by (auto simp: split_runs_step dest: in_set_takeD in_set_dropD)
  qed
qed

lemma split_runs_sorted: "sorted gs \<Longrightarrow> b \<in> set (split_runs sz gs) \<Longrightarrow> sorted b"
proof (induction sz gs rule: split_runs.induct)
  case (1 sz gs)
  show ?case
  proof (cases "sz = 0 \<or> gs = []")
    case True
    then show ?thesis using "1.prems" by auto
  next
    case False
    then show ?thesis using 1 by (auto simp: split_runs_step sorted_wrt_take sorted_wrt_drop)
  qed
qed

lemma runs_member_length:
  assumes "runs sz gs = Inr bs" "b \<in> set bs"
  shows "0 < length b \<and> int (length b) \<le> sz"
proof (cases "0 < sz")
  case True
  then have "b \<in> set (split_runs (nat sz) gs)" using assms runs_pos[OF True, of gs] by simp
  then show ?thesis using split_runs_length[of b "nat sz" gs] True by linarith
next
  case False
  then show ?thesis using assms by (auto simp: runs_def split: if_splits)
qed

subsection \<open>numpy indexing\<close>

lemma np_take_length: "np_take xs ks = Inr ys \<Longrightarrow> length ys = length ks"
  by (induction ks arbitrary: ys) (auto split: sum.splits)

lemma np_set_all_ok:
  "\<forall>k\<in>set ks. - int (length arr) \<le> k \<and> k < int (length arr) \<Longrightarrow> \<exists>m. np_set_all arr ks v = Inr m"
proof (induction ks arbitrary: arr)
  case Nil
  then show ?case by simp
next
  case (Cons k ks)
  then obtain j where j: "np_index (length arr) k = Inr j"
    by (cases "0 \<le> k") (auto simp: np_index_def)
  have "\<forall>k\<in>set ks. - int (length (arr[j := v])) \<le> k \<and> k < int (length (arr[j := v]))"
    using Cons.prems by simp
  from Cons.IH[OF this] show ?case using j by simp
qed

lemma np_set_all_length:
  "np_set_all arr ks v = Inr m \<Longrightarrow> length m = length arr"
  by (induction ks arbitrary: arr) (auto split: sum.splits)

lemma np_take_ok:
  "\<forall>k\<in>set ks. - int (length xs) \<le> k \<and> k < int (length xs) \<Longrightarrow> \<exists>ys. np_take xs ks = Inr ys"
proof (induction ks)
  case Nil
  then show ?case by simp
next
  case (Cons k ks)
  then obtain ys where "np_take xs ks = Inr ys" by auto
  moreover obtain j where "np_index (length xs) k = Inr j"
    using Cons.prems by (cases "0 \<le> k") (auto simp: np_index_def)
  ultimately show ?case by simp
qed

subsection \<open>float64 arithmetic\<close>

text \<open>
  Integers below \<open>2^53\<close> are float64 values. The float64 quotient of such an integer by a
  positive integer has the ceiling of the exact quotient: rounding to 53 bits moves the
  quotient by less than its distance to the next integer, and leaves it alone when it
  is an integer. So within these bounds the batch size of the code is the one of the
  formula.
\<close>

lemma round_int_exact: "\<bar>i\<bar> < 2 ^ 53 \<Longrightarrow> round_int i = i"
proof -
  assume "\<bar>i\<bar> < 2 ^ 53"
  then have "bitlen \<bar>i\<bar> \<le> 53" using bitlen_le_iff_power[of "\<bar>i\<bar>" 53] by simp
  then have "nat (bitlen \<bar>i\<bar>) \<le> 53" by simp
  then show ?thesis by (simp add: round_int_def Let_def)
qed

lemma rne_scale:
  assumes "0 < k"
  shows "rne (N * k) (D * k) = rne N D"
proof -
  have d: "(N * k) div (D * k) = N div D" using assms by simp
  have m: "(N * k) mod (D * k) = (N mod D) * k" using assms by (simp add: mult_mod_left mult.commute)
  have lt: "2 * ((N mod D) * k) < D * k \<longleftrightarrow> 2 * (N mod D) < D"
    using assms by (metis mult.assoc mult_less_cancel_right_pos)
  have gt: "D * k < 2 * ((N mod D) * k) \<longleftrightarrow> D < 2 * (N mod D)"
    using assms by (metis mult.assoc mult_less_cancel_right_pos)
  show ?thesis unfolding rne_def Let_def d m lt gt ..
qed

lemma rne_bounds:
  assumes "0 < D"
  shows "N div D \<le> rne N D" and "rne N D \<le> N div D + 1"
  by (simp_all add: rne_def Let_def)

lemma rne_exact: "0 < D \<Longrightarrow> N mod D = 0 \<Longrightarrow> rne N D = N div D"
  by (simp add: rne_def Let_def)

lemma rne_up: "D < 2 * (N mod D) \<Longrightarrow> rne N D = N div D + 1"
  by (simp add: rne_def Let_def)

lemma round53_ceiling:
  assumes a: "0 \<le> a" "a < 2 ^ 53" and n: "0 < n"
  shows "\<lceil>round53 a n\<rceil> = \<lceil>real_of_int a / real_of_int n\<rceil>"
proof -
  define bN where "bN = nat (bitlen a)"
  define bD where "bD = nat (bitlen n)"
  define c :: nat where "c = (if n * 2 ^ bN \<le> a * 2 ^ bD then 0 else 1)"
  define t where "t = 52 + bD + c - bN"
  define k where "k = \<lceil>real_of_int a / real_of_int n\<rceil>"
  define A where "A = a * 2 ^ t"
  define m where "m = rne A n"
  have "bitlen a \<le> 53" using a bitlen_le_iff_power[of a 53] by simp
  then have bN: "bN \<le> 53" by (simp add: bN_def)
  have "1 \<le> bitlen n" using n bitlen_ge_iff_power[of 1 n] by simp
  then have bD1: "1 \<le> bD" by (simp add: bD_def)
  have nlt: "n < 2 ^ bD" using bitlen_bounds[OF n] by (simp add: bD_def)
  have T: "52 + bD + c = t + bN" using bN bD1 by (simp add: t_def)
  have tb: "bD \<le> t + 1" using bN by (simp add: t_def)
  have "(2::int) ^ bD \<le> 2 ^ (t + 1)" using tb by (intro power_increasing) simp_all
  then have n2: "n < 2 * 2 ^ t" using nlt by simp
  have pw: "(0::int) < 2 ^ bN" by simp
  have "rne (a * 2 ^ (52 + bD + c)) (n * 2 ^ bN) = rne (A * 2 ^ bN) (n * 2 ^ bN)"
    by (simp add: T A_def power_add mult.assoc)
  also have "\<dots> = m" using rne_scale[OF pw, of A n] by (simp add: m_def)
  finally have r: "rne (a * 2 ^ (52 + bD + c)) (n * 2 ^ bN) = m" .
  have "round53 a n = real_of_int (m * 2 ^ bN) / real_of_int (2 ^ (t + bN))"
    unfolding round53_def Let_def bN_def[symmetric] bD_def[symmetric] c_def[symmetric] r
    by (simp add: T)
  also have "\<dots> = real_of_int m / 2 ^ t" by (simp add: power_add)
  finally have val: "round53 a n = real_of_int m / 2 ^ t" .
  have "real_of_int k - 1 < real_of_int a / real_of_int n" "real_of_int a / real_of_int n \<le> real_of_int k"
    unfolding k_def by linarith+
  then have "(real_of_int k - 1) * real_of_int n < real_of_int a" "real_of_int a \<le> real_of_int k * real_of_int n"
    using n by (simp_all add: pos_less_divide_eq pos_divide_le_eq)
  then have "real_of_int ((k - 1) * n) < real_of_int a" "real_of_int a \<le> real_of_int (k * n)"
    by simp_all
  then have klo: "(k - 1) * n < a" and khi: "a \<le> k * n" by linarith+
  have p2: "(0::int) < 2 ^ t" by simp
  have Ahi: "A \<le> (k * 2 ^ t) * n"
  proof -
    have "a * 2 ^ t \<le> (k * n) * 2 ^ t" using khi by (simp add: mult_right_mono)
    then show ?thesis by (simp add: A_def mult.assoc mult.commute mult.left_commute)
  qed
  have qhi: "A div n \<le> k * 2 ^ t"
  proof -
    have "A div n \<le> ((k * 2 ^ t) * n) div n" using Ahi n by (rule zdiv_mono1)
    then show ?thesis using n by simp
  qed
  have mhi: "m \<le> k * 2 ^ t"
  proof (cases "A div n = k * 2 ^ t")
    case True
    have "A = (A div n) * n + A mod n" by simp
    then have "A mod n = A - (k * 2 ^ t) * n" using True by (metis add_diff_cancel_left')
    moreover have "0 \<le> A mod n" using n by simp
    ultimately have "A mod n = 0" using Ahi by linarith
    then show ?thesis using rne_exact[OF n, of A] True by (simp add: m_def)
  next
    case False
    then have "A div n + 1 \<le> k * 2 ^ t" using qhi by linarith
    then show ?thesis using rne_bounds(2)[OF n, of A] by (simp add: m_def)
  qed
  have Alo: "((k - 1) * 2 ^ t) * n + 2 ^ t \<le> A"
  proof -
    have "(k - 1) * n + 1 \<le> a" using klo by linarith
    then have "((k - 1) * n + 1) * 2 ^ t \<le> a * 2 ^ t" by (simp add: mult_right_mono)
    then show ?thesis by (simp add: A_def algebra_simps)
  qed
  have qlo: "(k - 1) * 2 ^ t \<le> A div n"
  proof -
    have "((k - 1) * 2 ^ t) * n \<le> A" using Alo p2 by linarith
    then have "(((k - 1) * 2 ^ t) * n) div n \<le> A div n" using n by (rule zdiv_mono1)
    then show ?thesis using n by simp
  qed
  have mlo: "(k - 1) * 2 ^ t < m"
  proof (cases "A div n = (k - 1) * 2 ^ t")
    case True
    have "A = (A div n) * n + A mod n" by simp
    then have "A mod n = A - ((k - 1) * 2 ^ t) * n" using True by (metis add_diff_cancel_left')
    then have "2 ^ t \<le> A mod n" using Alo by linarith
    then have "n < 2 * (A mod n)" using n2 by linarith
    then show ?thesis using rne_up[of n A] True by (simp add: m_def)
  next
    case False
    then have "(k - 1) * 2 ^ t < A div n" using qlo by linarith
    then show ?thesis using rne_bounds(1)[OF n, of A] by (simp add: m_def)
  qed
  have "real_of_int ((k - 1) * 2 ^ t) < real_of_int m" "real_of_int m \<le> real_of_int (k * 2 ^ t)"
    using mlo mhi by linarith+
  then have "real_of_int k - 1 < real_of_int m / 2 ^ t" "real_of_int m / 2 ^ t \<le> real_of_int k"
    by (simp_all add: pos_less_divide_eq pos_divide_le_eq)
  then have "\<lceil>real_of_int m / 2 ^ t\<rceil> = k" by (simp add: ceiling_unique)
  then show ?thesis by (simp add: val k_def)
qed

lemma py_float_exact: "\<bar>i\<bar> < 2 ^ 53 \<Longrightarrow> py_float i = Inr i"
proof -
  assume a: "\<bar>i\<bar> < 2 ^ 53"
  have "(2::int) ^ 53 \<le> 2 ^ 1024" by (intro power_increasing) simp_all
  then have "\<not> 2 ^ 1024 \<le> \<bar>i\<bar>" using a by linarith
  then show ?thesis using round_int_exact[OF a] by (simp add: py_float_def)
qed

lemma auto_size_exact:
  assumes G: "0 < G" and p: "0 < p" and b: "G * p < 2 ^ 53" and n: "0 < n" "n < 2 ^ 53"
  shows "auto_size platform G p n = Inr (auto_batch_size G p n)"
proof -
  have Gp: "G \<le> G * p" "p \<le> G * p" using G p by (simp_all add: mult_le_cancel_left1 mult_le_cancel_right2)
  have pos: "0 < G * p" using G p by simp
  have aG: "\<bar>G\<bar> < 2 ^ 53" and ap: "\<bar>p\<bar> < 2 ^ 53" and aa: "\<bar>G * p\<bar> < 2 ^ 53" and an: "\<bar>n\<bar> < 2 ^ 53"
    using G p b n Gp pos by linarith+
  have le: "(2::int) ^ 53 \<le> 2 ^ 63" "(2::int) ^ 53 \<le> 2 ^ 1024" by (intro power_increasing; simp)+
  define cf where "cf = \<lceil>real_of_int (G * p) / real_of_int n\<rceil>"
  have q: "\<lceil>round_quot (G * p) n\<rceil> = cf"
    using round53_ceiling[of "G * p" n] pos b n(1) by (simp add: round_quot_def cf_def)
  have r1: "1 \<le> real_of_int n" and r0: "0 \<le> real_of_int (G * p)" using n(1) G p by simp_all
  have "real_of_int (G * p) * 1 \<le> real_of_int (G * p) * real_of_int n"
    by (rule mult_left_mono[OF r1 r0])
  then have "real_of_int (G * p) / real_of_int n \<le> real_of_int (G * p)"
    using n(1) by (simp add: pos_divide_le_eq)
  then have cfhi: "cf \<le> G * p" unfolding cf_def by (simp add: ceiling_le)
  have "0 < real_of_int (G * p) / real_of_int n" using G p n(1) by simp
  then have cflo: "0 < cf" unfolding cf_def by linarith
  have i1: "in_int64 cf" using cfhi cflo b le by (simp add: in_int64_def)
  have i2: "in_int64 G" using G aG le by (simp add: in_int64_def)
  have big: "\<not> 2 ^ 1024 \<le> \<bar>G * p\<bar>" using aa le by linarith
  have n63: "n < 2 ^ 63" using n(2) le by linarith
  have "auto_size platform G p n = Inr (max (floor_divide G cf) 1)"
    using py_float_exact[OF aG] py_float_exact[OF ap] round_int_exact[OF aa] round_int_exact[OF an]
      big n63 q i1 i2 G
    by (simp add: auto_size_def Let_def)
  then show ?thesis using cflo by (simp add: auto_batch_size_def floor_divide_def cf_def)
qed

subsection \<open>The grid tree\<close>

lemma get_grid_tree_grids: "get_grid_tree s = (r, s1) \<Longrightarrow> grids s1 = grids s"
  by (auto simp: get_grid_tree_def split: option.splits sum.splits)

lemma get_grid_tree_memo: "get_grid_tree s = (Inr t, s1) \<Longrightarrow> get_grid_tree s1 = (Inr t, s1)"
  by (auto simp: get_grid_tree_def split: option.splits sum.splits)

lemma tree_loop_ok:
  "i + length gs \<le> gt_num_grids t \<Longrightarrow> \<exists>t'. tree_loop i gs t = Inr t'"
proof (induction gs arbitrary: i t)
  case Nil
  then show ?case by simp
next
  case (Cons g gs)
  then show ?case by simp
qed

lemma get_grid_tree_ok:
  "length (grids s) \<le> num_grids s \<Longrightarrow> \<exists>t. fst (get_grid_tree s) = Inr t"
proof -
  assume "length (grids s) \<le> num_grids s"
  then obtain t where "build_grid_tree s = Inr t"
    using tree_loop_ok[of 0 "grids s"] by (fastforce simp: build_grid_tree_def Let_def)
  then show ?thesis by (cases "grid_tree s") (simp_all add: get_grid_tree_def)
qed

subsection \<open>Backing-file grouping\<close>

lemma dict_append_filter:
  "filter (\<lambda>p. fst p = k) (dict_append d fn v) =
     (if k \<noteq> fn then filter (\<lambda>p. fst p = k) d
      else (case filter (\<lambda>p. fst p = fn) d of
              [] \<Rightarrow> [(fn, [v])]
            | p # rest \<Rightarrow> (fst p, snd p @ [v]) # rest))"
proof (induction d)
  case Nil
  then show ?case by simp
next
  case (Cons a d)
  then show ?case by (cases a) auto
qed

lemma group_by_file_filter:
  "(\<forall>k. filter (\<lambda>p. fst p = k) d = (if X k = [] then [] else [(k, X k)])) \<Longrightarrow>
     filter (\<lambda>p. fst p = k) (group_by_file d gs) =
       (if X k @ ids_of k gs = [] then [] else [(k, X k @ ids_of k gs)])"
proof (induction gs arbitrary: d X)
  case Nil
  then show ?case by (simp add: ids_of_def)
next
  case (Cons g gs)
  let ?fn = "filename g" and ?v = "grid_id g - id_offset g"
  let ?X = "X(?fn := X ?fn @ [?v])"
  have "\<forall>k. filter (\<lambda>p. fst p = k) (dict_append d ?fn ?v) = (if ?X k = [] then [] else [(k, ?X k)])"
    using Cons.prems by (simp add: dict_append_filter)
  from Cons.IH[OF this] show ?case by (simp add: ids_of_def)
qed

lemma grids_by_file_filter:
  "filter (\<lambda>p. fst p = k) (sort_key fst (map (\<lambda>(fn, ids). (fn, sort ids)) (group_by_file [] gs)))
     = (if ids_of k gs = [] then [] else [(k, sort (ids_of k gs))])"
proof -
  have "filter (\<lambda>p. fst p = k) (group_by_file [] gs) =
          (if [] @ ids_of k gs = [] then [] else [(k, [] @ ids_of k gs)])"
    using group_by_file_filter[of "[]" "\<lambda>k. []" k gs] by simp
  moreover have "filter (\<lambda>p. fst p = k) (map (\<lambda>(fn, ids). (fn, sort ids)) G)
                  = map (\<lambda>(fn, ids). (fn, sort ids)) (filter (\<lambda>p. fst p = k) G)"
    for G :: "(string \<times> int list) list"
    by (induction G) auto
  ultimately show ?thesis by (simp add: sort_key_stable)
qed

lemma make_files_length: "length (make_files fn fi rs) = length rs"
  by (induction rs arbitrary: fi) auto

lemma make_files_nth:
  "i < length rs \<Longrightarrow> make_files fn fi rs ! i =
      \<lparr>df_filename = fn, file_id = fi + int i, grid_id_values = rs ! i\<rparr>"
proof (induction rs arbitrary: fi i)
  case Nil
  then show ?case by simp
next
  case (Cons r rs)
  then show ?case by (cases i) auto
qed

lemma make_files_filter:
  "filter (\<lambda>df. df_filename df = k) (make_files fn fi rs) = (if fn = k then make_files fn fi rs else [])"
  by (induction rs arbitrary: fi) auto

lemma make_files_values: "map grid_id_values (make_files fn fi rs) = rs"
  by (induction rs arbitrary: fi) auto

lemma files_loop_ok:
  assumes "0 < c"
  shows "\<exists>dfs. files_loop c fi L = Inr dfs
           \<and> (\<forall>i<length dfs. file_id (dfs ! i) = fi + int i)
           \<and> (\<forall>k. map grid_id_values (filter (\<lambda>df. df_filename df = k) dfs) =
                    concat (map (\<lambda>p. split_runs (nat c) (snd p)) (filter (\<lambda>p. fst p = k) L)))"
proof (induction L arbitrary: fi)
  case Nil
  then show ?case by simp
next
  case (Cons a L)
  obtain fn gs where a: "a = (fn, gs)" by (cases a)
  let ?rs = "split_runs (nat c) gs"
  obtain dfs' where d:
    "files_loop c (fi + int (length ?rs)) L = Inr dfs'"
    "\<forall>i<length dfs'. file_id (dfs' ! i) = fi + int (length ?rs) + int i"
    "\<forall>k. map grid_id_values (filter (\<lambda>df. df_filename df = k) dfs') =
            concat (map (\<lambda>p. split_runs (nat c) (snd p)) (filter (\<lambda>p. fst p = k) L))"
    using Cons.IH[of "fi + int (length ?rs)"] by blast
  let ?dfs = "make_files fn fi ?rs @ dfs'"
  have e: "files_loop c fi (a # L) = Inr ?dfs"
    using a d(1) runs_pos[OF assms, of gs] by simp
  have f: "file_id (?dfs ! i) = fi + int i" if "i < length ?dfs" for i
  proof (cases "i < length ?rs")
    case True
    then show ?thesis by (simp add: nth_append make_files_length make_files_nth)
  next
    case False
    then have "i - length ?rs < length dfs'" using that by (simp add: make_files_length)
    then have "file_id (dfs' ! (i - length ?rs)) = fi + int (length ?rs) + int (i - length ?rs)"
      using d(2) by blast
    then show ?thesis using False by (simp add: nth_append make_files_length)
  qed
  have g: "map grid_id_values (filter (\<lambda>df. df_filename df = k) ?dfs) =
            concat (map (\<lambda>p. split_runs (nat c) (snd p)) (filter (\<lambda>p. fst p = k) (a # L)))" for k
    using d(3) a by (simp add: make_files_filter make_files_values)
  show ?case using e f g by blast
qed

lemma GRID_CHUNKSIZE_pos: "\<forall>c. v = Some c \<longrightarrow> 0 \<le> c \<Longrightarrow> 0 < GRID_CHUNKSIZE v"
  by (cases v) (auto simp: GRID_CHUNKSIZE_def)

lemma shuffled_ids:
  "sort (ids_of ''a'' (grids shuffled_index)) = [0, 1, 2, 3]"
  "sort (ids_of ''b'' (grids shuffled_index)) = [4, 5, 6, 7]"
  by (simp_all add: ids_of_def shuffled_index_def example_grid_def)

text \<open>
  Claim C9. \<open>_setup_filenames\<close> buckets the grids by filename, sorts the ids of each
  bucket, and splits them into consecutive runs of at most \<open>GRID_CHUNKSIZE\<close> ids: for
  every filename, the backing files of that name hold, in order, the runs of its sorted
  bucket. The files are numbered 0, 1, 2, ... in the order of the list, and every file
  holds a sorted, non-empty run. The configured maximum is taken to be non-negative
  (\<open>None\<close> and 0 stand for \<open>2 << 32\<close>).
\<close>

theorem setup_filenames_groups:
  assumes "\<forall>c. grid_chunk_size s = Some c \<longrightarrow> 0 \<le> c"
  shows "\<exists>s'. setup_filenames s = Inr s'
          \<and> (\<forall>i<length (data_files s'). file_id (data_files s' ! i) = int i)
          \<and> (\<forall>fn. map grid_id_values (filter (\<lambda>df. df_filename df = fn) (data_files s')) =
                    split_runs (nat (GRID_CHUNKSIZE (grid_chunk_size s))) (sort (ids_of fn (grids s))))
          \<and> (\<forall>df\<in>set (data_files s'). sorted (grid_id_values df) \<and> grid_id_values df \<noteq> []
                    \<and> int (length (grid_id_values df)) \<le> GRID_CHUNKSIZE (grid_chunk_size s))"
proof -
  let ?c = "GRID_CHUNKSIZE (grid_chunk_size s)"
  let ?L = "sort_key fst (map (\<lambda>(fn, ids). (fn, sort ids)) (group_by_file [] (grids s)))"
  have pos: "0 < ?c" using GRID_CHUNKSIZE_pos[OF assms] .
  obtain dfs where d: "files_loop ?c 0 ?L = Inr dfs"
    "\<forall>i<length dfs. file_id (dfs ! i) = 0 + int i"
    "\<forall>k. map grid_id_values (filter (\<lambda>df. df_filename df = k) dfs) =
            concat (map (\<lambda>p. split_runs (nat ?c) (snd p)) (filter (\<lambda>p. fst p = k) ?L))"
    using files_loop_ok[OF pos, of 0 ?L] by blast
  have r: "map grid_id_values (filter (\<lambda>df. df_filename df = fn) dfs) =
          split_runs (nat ?c) (sort (ids_of fn (grids s)))" for fn
    using d(3) by (simp add: grids_by_file_filter)
  have b: "sorted (grid_id_values df) \<and> grid_id_values df \<noteq> []
             \<and> int (length (grid_id_values df)) \<le> ?c" if "df \<in> set dfs" for df
  proof -
    have "grid_id_values df \<in> set (map grid_id_values (filter (\<lambda>d. df_filename d = df_filename df) dfs))"
      using that by auto
    then have m: "grid_id_values df \<in> set (split_runs (nat ?c) (sort (ids_of (df_filename df) (grids s))))"
      using r[of "df_filename df"] by simp
    have "sorted (sort (ids_of (df_filename df) (grids s)))" by simp
    then have "sorted (grid_id_values df)" using split_runs_sorted m by blast
    moreover have "0 < length (grid_id_values df) \<and> length (grid_id_values df) \<le> nat ?c"
      using split_runs_length[OF m] .
    ultimately show ?thesis using pos by auto
  qed
  show ?thesis using d(1,2) r b by (simp add: setup_filenames_def Let_def)
qed

theorem setup_filenames_groups_witness:
  "grid_chunk_size shuffled_index = Some 3
   \<and> (\<exists>s'. setup_filenames shuffled_index = Inr s'
        \<and> (\<forall>i<length (data_files s'). file_id (data_files s' ! i) = int i)
        \<and> map grid_id_values (filter (\<lambda>df. df_filename df = ''a'') (data_files s')) = [[0, 1, 2], [3]]
        \<and> map grid_id_values (filter (\<lambda>df. df_filename df = ''b'') (data_files s')) = [[4, 5, 6], [7]])"
proof -
  have h: "\<forall>c. grid_chunk_size shuffled_index = Some c \<longrightarrow> 0 \<le> c"
    by (simp add: shuffled_index_def)
  have c: "nat (GRID_CHUNKSIZE (grid_chunk_size shuffled_index)) = 3"
    by (simp add: shuffled_index_def GRID_CHUNKSIZE_def)
  have r: "split_runs 3 [0, 1, 2, 3 :: int] = [[0, 1, 2], [3]]"
          "split_runs 3 [4, 5, 6, 7 :: int] = [[4, 5, 6], [7]]"
    by (simp_all add: split_runs_step)
  obtain s' where s': "setup_filenames shuffled_index = Inr s'"
    "\<forall>i<length (data_files s'). file_id (data_files s' ! i) = int i"
    "\<forall>fn. map grid_id_values (filter (\<lambda>df. df_filename df = fn) (data_files s')) =
        split_runs (nat (GRID_CHUNKSIZE (grid_chunk_size shuffled_index)))
          (sort (ids_of fn (grids shuffled_index)))"
    using setup_filenames_groups[OF h] by blast
  have "map grid_id_values (filter (\<lambda>df. df_filename df = ''a'') (data_files s')) = [[0, 1, 2], [3]]"
       "map grid_id_values (filter (\<lambda>df. df_filename df = ''b'') (data_files s')) = [[4, 5, 6], [7]]"
    using s'(3)[rule_format, of "''a''"] s'(3)[rule_format, of "''b''"]
    by (simp_all add: c r shuffled_ids)
  moreover have "grid_chunk_size shuffled_index = Some 3" by (simp add: shuffled_index_def)
  ultimately show ?thesis using s'(1,2) by (intro conjI exI[of _ s']) simp_all
qed

subsection \<open>Level statistics\<close>

lemma mask_filter:
  "map snd (filter fst (zip (map P ls) ds)) = map snd (filter (\<lambda>p. P (fst p)) (zip ls ds))"
proof (induction ls arbitrary: ds)
  case Nil
  then show ?case by simp
next
  case (Cons l ls)
  then show ?case by (cases ds) auto
qed

lemma prod_axis1_cells: "prod_axis1 d = of_int (cells d)"
  by (cases d) (simp add: prod_axis1_def cells_def)

lemma sum_list_of_int:
  "sum_list (map (\<lambda>x. of_int (f x)) xs) = (of_int (sum_list (map f xs)) :: 64 word)"
  by (induction xs) simp_all

lemma sint_of_int_64:
  "- (2 ^ 63) \<le> i \<Longrightarrow> i < 2 ^ 63 \<Longrightarrow> sint (of_int i :: 64 word) = i"
  by (simp add: sint_sbintrunc' signed_take_bit_int_eq_self)

lemma level_stats_step_ok:
  assumes "0 \<le> lv" "lv < int (length stats)" "length levels = length dims"
  shows "level_stats_step levels dims stats lv =
           Inr (stats[nat lv := (stats ! nat lv)\<lparr>numgrids := of_nat (level_grids levels lv),
                                                  numcells := of_int (level_cells levels dims lv)\<rparr>])"
proof -
  have "sum_list (map prod_axis1 (map snd (filter fst (zip (map (\<lambda>l. sint l = lv) levels) dims))))
          = of_int (level_cells levels dims lv)"
    by (simp add: mask_filter level_cells_def comp_def prod_axis1_cells sum_list_of_int)
  then show ?thesis using assms
    by (simp add: level_stats_step_def level_grids_def Let_def)
qed

lemma level_stats_loop_ok:
  assumes "length levels = length dims"
  shows "\<forall>lv\<in>set lvs. 0 \<le> lv \<and> lv < int (length stats) \<Longrightarrow> distinct lvs \<Longrightarrow>
     \<exists>stats'. level_stats_loop levels dims stats lvs = Inr stats' \<and> length stats' = length stats
       \<and> (\<forall>lv\<in>set lvs. stats' ! nat lv =
             (stats ! nat lv)\<lparr>numgrids := of_nat (level_grids levels lv),
                              numcells := of_int (level_cells levels dims lv)\<rparr>)
       \<and> (\<forall>i<length stats. int i \<notin> set lvs \<longrightarrow> stats' ! i = stats ! i)"
proof (induction lvs arbitrary: stats)
  case Nil
  then show ?case by simp
next
  case (Cons lv lvs)
  let ?st1 = "stats[nat lv := (stats ! nat lv)\<lparr>numgrids := of_nat (level_grids levels lv),
                                                numcells := of_int (level_cells levels dims lv)\<rparr>]"
  have lv: "0 \<le> lv" "lv < int (length stats)" using Cons.prems(1) by simp_all
  have step: "level_stats_step levels dims stats lv = Inr ?st1"
    using level_stats_step_ok[OF lv assms] .
  have "\<forall>l\<in>set lvs. 0 \<le> l \<and> l < int (length ?st1)" using Cons.prems(1) by simp
  moreover have "distinct lvs" using Cons.prems(2) by simp
  ultimately obtain stats' where s':
    "level_stats_loop levels dims ?st1 lvs = Inr stats'" "length stats' = length ?st1"
    "\<forall>l\<in>set lvs. stats' ! nat l =
             (?st1 ! nat l)\<lparr>numgrids := of_nat (level_grids levels l),
                             numcells := of_int (level_cells levels dims l)\<rparr>"
    "\<forall>i<length ?st1. int i \<notin> set lvs \<longrightarrow> stats' ! i = ?st1 ! i"
    using Cons.IH[of ?st1] by blast
  have notin: "lv \<notin> set lvs" using Cons.prems(2) by simp
  have a: "stats' ! nat lv = (stats ! nat lv)\<lparr>numgrids := of_nat (level_grids levels lv),
                                               numcells := of_int (level_cells levels dims lv)\<rparr>"
    using s'(4) lv notin by simp
  have b: "stats' ! nat l = (stats ! nat l)\<lparr>numgrids := of_nat (level_grids levels l),
                                             numcells := of_int (level_cells levels dims l)\<rparr>"
    if "l \<in> set lvs" for l
  proof -
    have "l \<noteq> lv" using that notin by auto
    moreover have "0 \<le> l" using that Cons.prems(1) by simp
    ultimately have "nat l \<noteq> nat lv" using lv(1) by simp
    then show ?thesis using s'(3) that by simp
  qed
  have c: "stats' ! i = stats ! i" if "i < length stats" "int i \<notin> set (lv # lvs)" for i
  proof -
    have "i \<noteq> nat lv" using that(2) lv(1) by auto
    then show ?thesis using s'(4) that by simp
  qed
  show ?case using step s'(1,2) a b c by auto
qed

lemma blank_stats_nth:
  "i < M \<Longrightarrow> blank_stats M ! i = \<lparr>numgrids = 0, numcells = 0, level = of_nat i\<rparr>"
  by (simp add: blank_stats_def)

text \<open>
  Claim C8. After \<open>_initialize_level_stats\<close>, the record of every level up to
  \<open>max_level\<close> holds the number of grids of that level and the sum, over those grids, of
  the product of their three dimensions, both stored as int64 values; the stored cell
  count reads back as that sum whenever the sum fits in an int64. This needs
  \<open>max_level\<close> below \<open>MAXLEVEL\<close> and level and dimension arrays with one row per grid.
  The witness is the specification's example: three level-0 grids of \<open>8 \<times> 8 \<times> 8\<close> cells
  and two level-1 grids of \<open>4 \<times> 4 \<times> 4\<close> cells give \<open>(3, 1536)\<close> for level 0 and
  \<open>(2, 128)\<close> for level 1.
\<close>

theorem initialize_level_stats_counts:
  assumes "max_level s < int M" and "length (grid_levels s) = length (grid_dimensions s)"
  shows "\<exists>s'. initialize_level_stats M s = Inr s'
           \<and> (\<forall>lv. 0 \<le> lv \<and> lv \<le> max_level s \<longrightarrow>
                 level_stats s' ! nat lv =
                   \<lparr>numgrids = of_nat (level_grids (grid_levels s) lv),
                    numcells = of_int (level_cells (grid_levels s) (grid_dimensions s) lv),
                    level = of_int lv\<rparr>
                 \<and> (- (2 ^ 63) \<le> level_cells (grid_levels s) (grid_dimensions s) lv
                      \<and> level_cells (grid_levels s) (grid_dimensions s) lv < 2 ^ 63 \<longrightarrow>
                    sint (numcells (level_stats s' ! nat lv))
                      = level_cells (grid_levels s) (grid_dimensions s) lv))"
proof -
  have len: "length (blank_stats M) = M" by (simp add: blank_stats_def)
  have r: "\<forall>lv\<in>set [0..max_level s]. 0 \<le> lv \<and> lv < int (length (blank_stats M))"
    using assms(1) len by simp
  obtain stats' where s':
    "level_stats_loop (grid_levels s) (grid_dimensions s) (blank_stats M) [0..max_level s] = Inr stats'"
    "\<forall>lv\<in>set [0..max_level s]. stats' ! nat lv =
        (blank_stats M ! nat lv)\<lparr>numgrids := of_nat (level_grids (grid_levels s) lv),
             numcells := of_int (level_cells (grid_levels s) (grid_dimensions s) lv)\<rparr>"
    using level_stats_loop_ok[OF assms(2) r] by auto
  have a: "stats' ! nat lv =
          \<lparr>numgrids = of_nat (level_grids (grid_levels s) lv),
           numcells = of_int (level_cells (grid_levels s) (grid_dimensions s) lv),
           level = of_int lv\<rparr>" if "0 \<le> lv" "lv \<le> max_level s" for lv
  proof -
    have "nat lv < M" using that assms(1) by linarith
    then have "blank_stats M ! nat lv = \<lparr>numgrids = 0, numcells = 0, level = of_int lv\<rparr>"
      using blank_stats_nth[of "nat lv" M] that(1) by simp
    then show ?thesis using s'(2) that by simp
  qed
  have b: "sint (numcells (stats' ! nat lv)) = level_cells (grid_levels s) (grid_dimensions s) lv"
    if "0 \<le> lv" "lv \<le> max_level s"
       "- (2 ^ 63) \<le> level_cells (grid_levels s) (grid_dimensions s) lv"
       "level_cells (grid_levels s) (grid_dimensions s) lv < 2 ^ 63" for lv
    using a[OF that(1,2)] sint_of_int_64[OF that(3,4)] by simp
  show ?thesis using s'(1) a b by (simp add: initialize_level_stats_def)
qed

theorem initialize_level_stats_counts_witness:
  "max_level example_hierarchy < int 48
   \<and> length (grid_levels example_hierarchy) = length (grid_dimensions example_hierarchy)
   \<and> (\<exists>s'. initialize_level_stats 48 example_hierarchy = Inr s'
        \<and> level_stats s' ! 0 = \<lparr>numgrids = 3, numcells = 1536, level = 0\<rparr>
        \<and> level_stats s' ! 1 = \<lparr>numgrids = 2, numcells = 128, level = 1\<rparr>
        \<and> sint (numcells (level_stats s' ! 0)) = 1536
        \<and> sint (numcells (level_stats s' ! 1)) = 128)"
proof -
  have a: "max_level example_hierarchy < int 48" by (simp add: example_hierarchy_def)
  have b: "length (grid_levels example_hierarchy) = length (grid_dimensions example_hierarchy)"
    by (simp add: example_hierarchy_def)
  have g: "level_grids (grid_levels example_hierarchy) 0 = 3"
          "level_grids (grid_levels example_hierarchy) 1 = 2"
    by (simp_all add: example_hierarchy_def level_grids_def)
  have c: "level_cells (grid_levels example_hierarchy) (grid_dimensions example_hierarchy) 0 = 1536"
          "level_cells (grid_levels example_hierarchy) (grid_dimensions example_hierarchy) 1 = 128"
    by (simp_all add: example_hierarchy_def level_cells_def cells_def)
  obtain s' where s': "initialize_level_stats 48 example_hierarchy = Inr s'"
     "\<forall>lv. 0 \<le> lv \<and> lv \<le> max_level example_hierarchy \<longrightarrow>
                 level_stats s' ! nat lv =
                   \<lparr>numgrids = of_nat (level_grids (grid_levels example_hierarchy) lv),
                    numcells = of_int (level_cells (grid_levels example_hierarchy) (grid_dimensions example_hierarchy) lv),
                    level = of_int lv\<rparr>
                 \<and> (- (2 ^ 63) \<le> level_cells (grid_levels example_hierarchy) (grid_dimensions example_hierarchy) lv
                      \<and> level_cells (grid_levels example_hierarchy) (grid_dimensions example_hierarchy) lv < 2 ^ 63 \<longrightarrow>
                    sint (numcells (level_stats s' ! nat lv))
                      = level_cells (grid_levels example_hierarchy) (grid_dimensions example_hierarchy) lv)"
    using initialize_level_stats_counts[OF a b] by blast
  have m: "max_level example_hierarchy = 1" by (simp add: example_hierarchy_def)
  from s'(2)[rule_format, of 0] s'(2)[rule_format, of 1] m g c
  have "level_stats s' ! 0 = \<lparr>numgrids = 3, numcells = 1536, level = 0\<rparr>"
       "level_stats s' ! 1 = \<lparr>numgrids = 2, numcells = 128, level = 1\<rparr>"
       "sint (numcells (level_stats s' ! 0)) = 1536"
       "sint (numcells (level_stats s' ! 1)) = 128"
    by simp_all
  then show ?thesis using a b s'(1) by (intro conjI exI[of _ s']) simp_all
qed

subsection \<open>The io strategy\<close>

lemma io_batches_members:
  "st \<in> set (fst (fst (io_batches api s dobj c sz f bs))) \<Longrightarrow>
     g_indices st \<in> set bs \<and> objs (dc st) = [f] \<and> preload_size st = 4 * sz"
proof (induction bs arbitrary: s)
  case Nil
  then show ?case by simp
next
  case (Cons b bs)
  show ?case
  proof (cases "np_set_all (replicate (length (grids s)) (0::8 word)) b 1")
    case (Inl e)
    then show ?thesis using Cons.prems by simp
  next
    case (Inr m)
    obtain r s1 where g: "get_grid_tree s = (r, s1)" by (cases "get_grid_tree s")
    show ?thesis
    proof (cases r)
      case (Inl e)
      then show ?thesis using Cons.prems Inr g by simp
    next
      case t: (Inr t)
      show ?thesis
      proof (cases "np_take (grids s1) (grid_order api (new_selector api t m))")
        case (Inl e)
        then show ?thesis using Cons.prems Inr g t by (simp add: count_selection_def Let_def)
      next
        case gl: (Inr gl)
        obtain steps e s2 where r: "io_batches api s1 dobj c sz f bs = ((steps, e), s2)"
          by (metis prod.exhaust)
        have "st = \<lparr>g_indices = b,
                     dc = \<lparr>chunk_type = ''io'', objs = [f],
                           data_size = Some (count api (new_selector api t m) (selector dobj)),
                           cache = c, indexer = Some (new_selector api t m)\<rparr>,
                     preload_size = 4 * sz\<rparr> \<or> st \<in> set steps"
          using Cons.prems Inr g t gl r by (auto simp: count_selection_def Let_def)
        then show ?thesis
        proof
          assume "st \<in> set steps"
          then have "st \<in> set (fst (fst (io_batches api s1 dobj c sz f bs)))" using r by simp
          from Cons.IH[OF this] show ?thesis by simp
        qed simp
      qed
    qed
  qed
qed

lemma io_batches_ok:
  assumes "fst (get_grid_tree s) = Inr t"
    and "\<forall>b\<in>set bs. \<forall>k\<in>set b. - int (length (grids s)) \<le> k \<and> k < int (length (grids s))"
    and "\<forall>m. length m = length (grids s) \<longrightarrow>
            (\<forall>k\<in>set (grid_order api (new_selector api t m)).
               - int (length (grids s)) \<le> k \<and> k < int (length (grids s)))"
  shows "\<exists>steps s'. io_batches api s dobj c sz f bs = ((steps, None), s')
           \<and> map g_indices steps = bs \<and> fst (get_grid_tree s') = Inr t \<and> grids s' = grids s"
  using assms
proof (induction bs arbitrary: s)
  case Nil
  then show ?case by simp
next
  case (Cons b bs)
  obtain m where m: "np_set_all (replicate (length (grids s)) (0::8 word)) b 1 = Inr m"
    using np_set_all_ok[of b "replicate (length (grids s)) (0::8 word)" 1] Cons.prems(2) by auto
  obtain s1 where g: "get_grid_tree s = (Inr t, s1)"
    using Cons.prems(1) by (cases "get_grid_tree s") auto
  have gr: "grids s1 = grids s" using get_grid_tree_grids[OF g] .
  have "length m = length (grids s)" using np_set_all_length[OF m] by simp
  then have "\<forall>k\<in>set (grid_order api (new_selector api t m)).
          - int (length (grids s1)) \<le> k \<and> k < int (length (grids s1))"
    using Cons.prems(3) gr by simp
  then obtain gl where gl: "np_take (grids s1) (grid_order api (new_selector api t m)) = Inr gl"
    using np_take_ok by blast
  have "fst (get_grid_tree s1) = Inr t" using get_grid_tree_memo[OF g] by simp
  moreover have "\<forall>b\<in>set bs. \<forall>k\<in>set b. - int (length (grids s1)) \<le> k \<and> k < int (length (grids s1))"
    using Cons.prems(2) gr by simp
  moreover have "\<forall>m. length m = length (grids s1) \<longrightarrow>
            (\<forall>k\<in>set (grid_order api (new_selector api t m)).
               - int (length (grids s1)) \<le> k \<and> k < int (length (grids s1)))"
    using Cons.prems(3) gr by simp
  ultimately obtain steps s' where r: "io_batches api s1 dobj c sz f bs = ((steps, None), s')"
    "map g_indices steps = bs" "fst (get_grid_tree s') = Inr t" "grids s' = grids s1"
    using Cons.IH[of s1] by blast
  show ?case using m g gl r gr by (simp add: count_selection_def Let_def)
qed

lemma io_files_members:
  "st \<in> set (fst (fst (io_files api s dobj c sz fs))) \<Longrightarrow>
     \<exists>f\<in>set fs. \<exists>bs. runs sz (grid_id_values f) = Inr bs \<and> g_indices st \<in> set bs
        \<and> objs (dc st) = [f] \<and> preload_size st = 4 * sz"
proof (induction fs arbitrary: s)
  case Nil
  then show ?case by simp
next
  case (Cons f fs)
  show ?case
  proof (cases "runs sz (grid_id_values f)")
    case (Inl e)
    then show ?thesis using Cons.prems by simp
  next
    case (Inr bs)
    obtain steps e s1 where b: "io_batches api s dobj c sz f bs = ((steps, e), s1)"
      by (metis prod.exhaust)
    show ?thesis
    proof (cases "st \<in> set steps")
      case True
      then show ?thesis using io_batches_members[of st api s dobj c sz f bs] b Inr by auto
    next
      case False
      then have "st \<in> set (fst (fst (io_files api s1 dobj c sz fs)))"
        using Cons.prems Inr b by (auto split: option.splits prod.splits)
      then show ?thesis using Cons.IH by auto
    qed
  qed
qed

lemma io_files_ok:
  assumes "0 < sz" and "fst (get_grid_tree s) = Inr t"
    and "\<forall>f\<in>set fs. \<forall>k\<in>set (grid_id_values f).
            - int (length (grids s)) \<le> k \<and> k < int (length (grids s))"
    and "\<forall>m. length m = length (grids s) \<longrightarrow>
            (\<forall>k\<in>set (grid_order api (new_selector api t m)).
               - int (length (grids s)) \<le> k \<and> k < int (length (grids s)))"
  shows "\<exists>steps s'. io_files api s dobj c sz fs = ((steps, None), s')
        \<and> map g_indices steps = concat (map (\<lambda>f. split_runs (nat sz) (grid_id_values f)) fs)
        \<and> fst (get_grid_tree s') = Inr t \<and> grids s' = grids s"
  using assms(2-)
proof (induction fs arbitrary: s)
  case Nil
  then show ?case by simp
next
  case (Cons f fs)
  have "\<forall>b\<in>set (split_runs (nat sz) (grid_id_values f)). \<forall>k\<in>set b.
          - int (length (grids s)) \<le> k \<and> k < int (length (grids s))"
    using Cons.prems(2) split_runs_set by fastforce
  then obtain steps s1 where b:
    "io_batches api s dobj c sz f (split_runs (nat sz) (grid_id_values f)) = ((steps, None), s1)"
    "map g_indices steps = split_runs (nat sz) (grid_id_values f)"
    "fst (get_grid_tree s1) = Inr t" "grids s1 = grids s"
    using io_batches_ok[OF Cons.prems(1) _ Cons.prems(3)] by blast
  have "\<forall>f\<in>set fs. \<forall>k\<in>set (grid_id_values f).
            - int (length (grids s1)) \<le> k \<and> k < int (length (grids s1))"
    using Cons.prems(2) b(4) by simp
  moreover have "\<forall>m. length m = length (grids s1) \<longrightarrow>
            (\<forall>k\<in>set (grid_order api (new_selector api t m)).
               - int (length (grids s1)) \<le> k \<and> k < int (length (grids s1)))"
    using Cons.prems(3) b(4) by simp
  ultimately obtain steps' s' where r: "io_files api s1 dobj c sz fs = ((steps', None), s')"
    "map g_indices steps' = concat (map (\<lambda>f. split_runs (nat sz) (grid_id_values f)) fs)"
    "fst (get_grid_tree s') = Inr t" "grids s' = grids s1"
    using Cons.IH[OF b(3)] by blast
  show ?case using b r by (simp add: runs_pos[OF assms(1)])
qed

lemma auto_batch_size_pos: "1 \<le> auto_batch_size g w n"
  by (simp add: auto_batch_size_def)

lemma chunk_io_steps:
  fixes s :: "('a::ring_1) GridIndex"
  assumes "st \<in> set (fst (chunk_io platform api cfg s dobj c chunk_sizing))"
  shows "\<exists>(gobjs :: 'a grid list) sz (f :: data_file) bs. chunk_io_size platform cfg (grid_chunk_size s) gobjs chunk_sizing = Inr sz
            \<and> f \<in> set (chunk_objs dobj) \<and> runs sz (grid_id_values f) = Inr bs \<and> g_indices st \<in> set bs
            \<and> objs (dc st) = [f] \<and> preload_size st = 4 * sz"
proof -
  from assms obtain cc ix and gl :: "'a grid list" and sz where
     "chunk_io_size platform cfg (grid_chunk_size s) (sort_key grid_id gl) chunk_sizing = Inr sz"
     "st \<in> set (fst (fst (io_files api s dobj c sz (chunk_objs dobj))))"
    by (auto simp: chunk_io_def chunk_io_state_def Let_def split: option.splits sum.splits)
  then show ?thesis using io_files_members[of st api s dobj c sz "chunk_objs dobj"]
    by blast
qed

lemma example_np_take:
  "np_take (grids example_index) (cell_count_keys example_api (replicate 8 1)) = Inr (grids example_index)"
  by code_simp

lemma example_keys: "cell_count_keys example_api (replicate 8 1) = [0, 1, 2, 3, 4, 5, 6, 7]"
  by code_simp

lemma example_auto_size:
  "auto_batch_size (GRID_CHUNKSIZE (grid_chunk_size example_index))
     (global_parallel_size example_cfg) 8 = 4"
  by (simp add: auto_batch_size_def GRID_CHUNKSIZE_def example_index_def example_cfg_def)

lemma example_ids_in_range:
  "\<forall>f\<in>set example_files. \<forall>k\<in>set (grid_id_values f).
      - int (length (grids example_index)) \<le> k \<and> k < int (length (grids example_index))"
  by (simp add: example_files_def example_index_def)

lemma example_order:
  "\<forall>m. length m = length (grids example_index) \<longrightarrow>
     (\<forall>k\<in>set (grid_order example_api (new_selector example_api t m)).
        - int (length (grids example_index)) \<le> k \<and> k < int (length (grids example_index)))"
proof (intro allI impI ballI)
  fix m :: "8 word list" and k
  assume l: "length m = length (grids example_index)"
    and k: "k \<in> set (grid_order example_api (new_selector example_api t m))"
  then obtain p where "p \<in> set (enumerate 0 m)" "k = int (fst p)"
    by (auto simp: example_api_def)
  then have "0 \<le> k \<and> k < int (length m)" by (auto simp: in_set_enumerate_eq)
  then show "- int (length (grids example_index)) \<le> k \<and> k < int (length (grids example_index))"
    using l by simp
qed

lemma ex_mem1: "example_step 1 (example_files ! 0) [0, 0, 1, 0, 0, 0, 0, 0]
    \<in> set (fst (chunk_io example_platform example_api example_cfg example_index example_dobj True ''just_one''))"
  by code_simp

lemma ex_mem2: "example_step 8 (example_files ! 1) [0, 0, 0, 0, 1, 1, 1, 1]
    \<in> set (fst (chunk_io example_platform example_api example_cfg example_index example_dobj True ''old''))"
  by code_simp

text \<open>
  Claim C1, as amended. In mode \<open>auto\<close>, with at least one grid in the selection, the
  batch size is \<open>max(GRID_CHUNKSIZE / ceil(GRID_CHUNKSIZE * nproc / n), 1)\<close> where \<open>n\<close> is
  the number of grids in the selection (the keys of the indexer of the current chunk),
  not the number of grids of a backing file; the division is the integer division and
  the ceiling is applied to the factor. This holds when there is at least one worker,
  the configured chunk size is not negative, and \<open>GRID_CHUNKSIZE * nproc\<close> and \<open>n\<close> are
  below \<open>2^53\<close>, where the float64 product and quotient of the code have the ceiling of
  the exact ones, on every platform. The generator then takes the grid ids of each
  backing file, in order, in consecutive runs of that size, gives four times the size
  to the preload, and ends without an exception, provided that the tree of the index
  can be had (\<open>t\<close> is the tree that \<open>self.grid_tree\<close> returns) and that the selection,
  the backing files and the grid order of every indexer made from the tree and a mask
  over the grids name grids of the index.
\<close>

theorem chunk_io_auto_batches:
  assumes cc: "current_chunk dobj = Some cc" and ix: "indexer cc = Some ix"
    and keys: "cell_count_keys api ix \<noteq> []"
    and inr: "\<forall>k\<in>set (cell_count_keys api ix). - int (length (grids s)) \<le> k \<and> k < int (length (grids s))"
    and ids: "\<forall>f\<in>set (objs cc). \<forall>k\<in>set (grid_id_values f). - int (length (grids s)) \<le> k \<and> k < int (length (grids s))"
    and tree: "fst (get_grid_tree s) = Inr t"
    and order: "\<forall>m. length m = length (grids s) \<longrightarrow>
            (\<forall>k\<in>set (grid_order api (new_selector api t m)).
               - int (length (grids s)) \<le> k \<and> k < int (length (grids s)))"
    and workers: "0 < global_parallel_size cfg"
    and chunk: "\<forall>c. grid_chunk_size s = Some c \<longrightarrow> 0 \<le> c"
    and exact: "GRID_CHUNKSIZE (grid_chunk_size s) * global_parallel_size cfg < 2 ^ 53"
    and count: "int (length (cell_count_keys api ix)) < 2 ^ 53"
    and sz: "sz = auto_batch_size (GRID_CHUNKSIZE (grid_chunk_size s)) (global_parallel_size cfg)
                    (int (length (cell_count_keys api ix)))"
  shows "\<exists>steps. chunk_io platform api cfg s dobj c ''auto'' = (steps, None)
           \<and> map g_indices steps = concat (map (\<lambda>f. split_runs (nat sz) (grid_id_values f)) (objs cc))
           \<and> (\<forall>st\<in>set steps. preload_size st = 4 * sz)"
proof -
  obtain gl where gl: "np_take (grids s) (cell_count_keys api ix) = Inr gl"
    using np_take_ok[OF inr] by blast
  have len: "length gl = length (cell_count_keys api ix)" using np_take_length[OF gl] .
  then have n: "0 < int (length (sort_key grid_id gl))" using keys by simp
  have "auto_size platform (GRID_CHUNKSIZE (grid_chunk_size s)) (global_parallel_size cfg)
          (int (length (sort_key grid_id gl))) = Inr sz"
    using auto_size_exact[OF GRID_CHUNKSIZE_pos[OF chunk] workers exact n] count len sz by simp
  then have size: "chunk_io_size platform cfg (grid_chunk_size s) (sort_key grid_id gl) ''auto'' = Inr sz"
    using n by (simp add: chunk_io_size_def Let_def)
  have pos: "0 < sz"
    using auto_batch_size_pos[of "GRID_CHUNKSIZE (grid_chunk_size s)" "global_parallel_size cfg"
        "int (length (cell_count_keys api ix))"] sz by simp
  have eq: "chunk_io platform api cfg s dobj c ''auto'' = fst (io_files api s dobj c sz (objs cc))"
    using cc ix gl size by (simp add: chunk_io_def chunk_io_state_def chunk_objs_def Let_def)
  obtain steps s' where st: "io_files api s dobj c sz (objs cc) = ((steps, None), s')"
     "map g_indices steps = concat (map (\<lambda>f. split_runs (nat sz) (grid_id_values f)) (objs cc))"
    using io_files_ok[OF pos tree ids order] by blast
  have "\<forall>st\<in>set steps. preload_size st = 4 * sz"
    using io_files_members[of _ api s dobj c sz "objs cc"] st(1) by auto
  then show ?thesis using eq st by simp
qed

theorem chunk_io_auto_batches_witness:
  "cell_count_keys example_api (replicate 8 1) \<noteq> []
   \<and> 0 < global_parallel_size example_cfg
   \<and> GRID_CHUNKSIZE (grid_chunk_size example_index) * global_parallel_size example_cfg < 2 ^ 53
   \<and> (\<exists>steps. chunk_io example_platform example_api example_cfg example_index example_dobj True ''auto''
          = (steps, None)
        \<and> map g_indices steps = [[0, 1, 2, 3], [4, 5, 6, 7]]
        \<and> (\<forall>st\<in>set steps. preload_size st = 16))"
proof -
  have c: "current_chunk example_dobj = Some \<lparr>chunk_type = ''all'', objs = example_files,
             data_size = Some 4096, cache = False, indexer = Some (replicate 8 1)\<rparr>"
    by (simp add: example_dobj_def)
  have k: "cell_count_keys example_api (replicate 8 1) \<noteq> []"
    by (simp add: example_keys)
  have r: "\<forall>k\<in>set (cell_count_keys example_api (replicate 8 1)).
      - int (length (grids example_index)) \<le> k \<and> k < int (length (grids example_index))"
    by (simp add: example_keys example_index_def)
  have i: "\<forall>f\<in>set (objs \<lparr>chunk_type = ''all'', objs = example_files,
             data_size = Some 4096, cache = False, indexer = Some (replicate 8 (1::8 word))\<rparr>).
           \<forall>k\<in>set (grid_id_values f).
      - int (length (grids example_index)) \<le> k \<and> k < int (length (grids example_index))"
    using example_ids_in_range by simp
  obtain t where t: "fst (get_grid_tree example_index) = Inr t"
    using get_grid_tree_ok[of example_index] by (auto simp: example_index_def)
  have w: "0 < global_parallel_size example_cfg" by (simp add: example_cfg_def)
  have g: "\<forall>c. grid_chunk_size example_index = Some c \<longrightarrow> 0 \<le> c"
    by (simp add: example_index_def)
  have e: "GRID_CHUNKSIZE (grid_chunk_size example_index) * global_parallel_size example_cfg < 2 ^ 53"
    by (simp add: GRID_CHUNKSIZE_def example_index_def example_cfg_def)
  have n: "int (length (cell_count_keys example_api (replicate 8 1))) < 2 ^ 53"
    by (simp add: example_keys)
  have s: "split_runs (nat 4) [0, 1, 2, 3 :: int] = [[0, 1, 2, 3]]"
          "split_runs (nat 4) [4, 5, 6, 7 :: int] = [[4, 5, 6, 7]]"
    by (simp_all add: split_runs_step)
  have z: "(4::int) = auto_batch_size (GRID_CHUNKSIZE (grid_chunk_size example_index))
             (global_parallel_size example_cfg) (int (length (cell_count_keys example_api (replicate 8 1))))"
    by (simp add: example_keys example_auto_size)
  show ?thesis
    using k w e s
      chunk_io_auto_batches[OF c _ k r i t example_order w g e n z, of example_platform True]
    by (simp add: example_files_def)
qed

text \<open>
  Claim C1 as stated, with the number of grids of the backing file under the ceiling,
  fails. Two files of four grids each, all eight grids selected, a chunk size of 8 and
  two workers: the code computes the batch size 4 from the eight selected grids and
  yields two batches of four grids, where the formula with four grids per file gives
  the batch size 2 and four batches of two grids. The formula also fails beyond the
  bound of the amended claim: one file of two grids, both selected, one worker and a
  chunk size of \<open>2^54 + 6\<close>, which float64 rounds to \<open>2^54 + 8\<close>. The code computes the
  factor \<open>2^53 + 4\<close> and the batch size 1, two batches of one grid, where the formula
  gives the factor \<open>2^53 + 3\<close>, the batch size 2 and one batch of two grids.
\<close>

theorem chunk_io_auto_per_file_counterexample:
  "map g_indices (fst (chunk_io example_platform example_api example_cfg example_index example_dobj True ''auto''))
     = [[0, 1, 2, 3], [4, 5, 6, 7]]
   \<and> map preload_size (fst (chunk_io example_platform example_api example_cfg example_index example_dobj True ''auto''))
     = [4 * 4, 4 * 4]
   \<and> auto_batch_size (GRID_CHUNKSIZE (grid_chunk_size example_index))
        (global_parallel_size example_cfg) (int (length (grid_id_values (example_files ! 0)))) = 2
   \<and> auto_batch_size (GRID_CHUNKSIZE (grid_chunk_size example_index))
        (global_parallel_size example_cfg) (int (length (grid_id_values (example_files ! 1)))) = 2
   \<and> split_runs 2 (grid_id_values (example_files ! 0)) @ split_runs 2 (grid_id_values (example_files ! 1))
     = [[0, 1], [2, 3], [4, 5], [6, 7]]
   \<and> map g_indices (fst (chunk_io example_platform example_api one_worker_cfg wide_index wide_dobj True ''auto''))
     = [[0], [1]]
   \<and> map preload_size (fst (chunk_io example_platform example_api one_worker_cfg wide_index wide_dobj True ''auto''))
     = [4 * 1, 4 * 1]
   \<and> auto_batch_size (GRID_CHUNKSIZE (grid_chunk_size wide_index))
        (global_parallel_size one_worker_cfg) (int (length (cell_count_keys example_api [1, 1]))) = 2
   \<and> split_runs 2 (grid_id_values (data_files wide_index ! 0)) = [[0, 1]]"
  by code_simp

text \<open>
  Claim C5. With \<open>chunk_sizing = "just_one"\<close> every batch of the io strategy holds exactly
  one grid id, and with \<open>chunk_sizing = "old"\<close> no batch holds more grid ids than
  \<open>GRID_CHUNKSIZE\<close>, the default grid chunk size. This holds for every step the
  generator yields, whether or not it later raises.
\<close>

theorem chunk_io_just_one_old:
  "(\<forall>st\<in>set (fst (chunk_io platform api cfg s dobj c ''just_one'')). length (g_indices st) = 1) \<and>
   (\<forall>st\<in>set (fst (chunk_io platform api cfg s dobj c ''old'')).
       int (length (g_indices st)) \<le> GRID_CHUNKSIZE (grid_chunk_size s))"
proof (intro conjI ballI)
  fix st assume "st \<in> set (fst (chunk_io platform api cfg s dobj c ''just_one''))"
  from chunk_io_steps[OF this] obtain f :: data_file and bs where
    "runs 1 (grid_id_values f) = Inr bs" "g_indices st \<in> set bs"
    by (auto simp: chunk_io_size_def Let_def)
  from runs_member_length[OF this] show "length (g_indices st) = 1"
    by (cases "g_indices st") auto
next
  fix st assume "st \<in> set (fst (chunk_io platform api cfg s dobj c ''old''))"
  from chunk_io_steps[OF this] obtain f :: data_file and bs where
    "runs (GRID_CHUNKSIZE (grid_chunk_size s)) (grid_id_values f) = Inr bs" "g_indices st \<in> set bs"
    by (auto simp: chunk_io_size_def Let_def)
  from runs_member_length[OF this]
  show "int (length (g_indices st)) \<le> GRID_CHUNKSIZE (grid_chunk_size s)" by simp
qed

theorem chunk_io_just_one_old_witness:
  "example_step 1 (example_files ! 0) [0, 0, 1, 0, 0, 0, 0, 0]
     \<in> set (fst (chunk_io example_platform example_api example_cfg example_index example_dobj True ''just_one''))
   \<and> length (g_indices (example_step 1 (example_files ! 0) [0, 0, 1, 0, 0, 0, 0, 0])) = 1
   \<and> example_step 8 (example_files ! 1) [0, 0, 0, 0, 1, 1, 1, 1]
     \<in> set (fst (chunk_io example_platform example_api example_cfg example_index example_dobj True ''old''))
   \<and> int (length (g_indices (example_step 8 (example_files ! 1) [0, 0, 0, 0, 1, 1, 1, 1])))
        \<le> GRID_CHUNKSIZE (grid_chunk_size example_index)"
  using ex_mem1 ex_mem2
    chunk_io_just_one_old[of example_platform example_api example_cfg example_index example_dobj True]
  by blast

text \<open>
  Claim C6. A \<open>chunk_sizing\<close> argument other than \<open>auto\<close>, \<open>config_file\<close>, \<open>just_one\<close>
  and \<open>old\<close> makes the io strategy fail before it yields any chunk: the generator ends
  with an exception and an empty list of chunks, and there is no second attempt. When
  the data object has a current chunk with an indexer over grids of the index, the
  exception is the RuntimeError that names the argument.
\<close>

theorem chunk_io_invalid_sizing:
  assumes "chunk_sizing \<notin> {''auto'', ''config_file'', ''just_one'', ''old''}"
  shows "fst (chunk_io platform api cfg s dobj c chunk_sizing) = []
       \<and> snd (chunk_io platform api cfg s dobj c chunk_sizing) \<noteq> None
       \<and> (\<forall>cc ix gl. current_chunk dobj = Some cc \<longrightarrow> indexer cc = Some ix \<longrightarrow>
             np_take (grids s) (cell_count_keys api ix) = Inr gl \<longrightarrow>
             chunk_io platform api cfg s dobj c chunk_sizing = ([], Some (RuntimeError chunk_sizing)))"
  using assms
  by (auto simp: chunk_io_def chunk_io_state_def chunk_io_size_def Let_def split: option.splits sum.splits)

theorem chunk_io_invalid_sizing_witness:
  "''bogus'' \<notin> {''auto'', ''config_file'', ''just_one'', ''old''}
   \<and> chunk_io example_platform example_api example_cfg example_index example_dobj True ''bogus''
       = ([], Some (RuntimeError ''bogus''))"
proof -
  have h: "''bogus'' \<notin> {''auto'', ''config_file'', ''just_one'', ''old''}" by simp
  have c: "current_chunk example_dobj = Some \<lparr>chunk_type = ''all'', objs = example_files,
             data_size = Some 4096, cache = False, indexer = Some (replicate 8 1)\<rparr>"
    by (simp add: example_dobj_def)
  show ?thesis
    using h c example_np_take
      chunk_io_invalid_sizing[OF h, of example_platform example_api example_cfg example_index example_dobj True]
    by simp
qed

text \<open>
  Claim C10. In mode \<open>auto\<close> with a selection of no grid, the io strategy does not fall
  back to a batch size of 1: it reads \<open>self._grid_chunksize\<close>, which the class never
  assigns, and ends with an AttributeError before any chunk is yielded.
\<close>

theorem chunk_io_auto_no_grids:
  assumes "current_chunk dobj = Some cc" and "indexer cc = Some ix"
    and "cell_count_keys api ix = []"
  shows "chunk_io platform api cfg s dobj c ''auto'' = ([], Some (AttributeError ''_grid_chunksize''))"
  using assms by (simp add: chunk_io_def chunk_io_state_def chunk_io_size_def Let_def)

theorem chunk_io_auto_no_grids_witness:
  "cell_count_keys example_api (replicate 8 0) = []
   \<and> chunk_io example_platform example_api example_cfg example_index empty_selection_dobj True ''auto''
       = ([], Some (AttributeError ''_grid_chunksize''))"
proof -
  have k: "cell_count_keys example_api (replicate 8 0) = []" by code_simp
  have c: "current_chunk empty_selection_dobj = Some \<lparr>chunk_type = ''all'', objs = [],
             data_size = Some 0, cache = False, indexer = Some (replicate 8 0)\<rparr>"
    by (simp add: empty_selection_dobj_def)
  show ?thesis
    using k chunk_io_auto_no_grids[OF c _ k, of example_platform example_cfg example_index True]
    by simp
qed

subsection \<open>The spatial strategy\<close>

lemma spatial_loop_raises:
  "gi \<noteq> [] \<Longrightarrow> spatial_loop api rgz dobj ngz gi = ([], Some NotImplementedError)"
  by (cases gi) (simp_all add: count_selection_def Let_def)

lemma chunk_spatial_raises:
  assumes "chunk_objs dobj \<noteq> []"
    and "sort_arg \<in> {None, Some ''+level'', Some ''level'', Some ''-level''}"
  shows "chunk_spatial api lv rgz dobj ngz sort_arg pf = ([], Some NotImplementedError)"
proof -
  have "sort_key f (chunk_objs dobj) \<noteq> []" for f :: "_ \<Rightarrow> int"
    using assms(1) by (metis length_0_conv length_sort)
  then show ?thesis using assms
    by (auto simp: chunk_spatial_def Let_def spatial_loop_raises preload_implemented_def)
qed

text \<open>
  Claim C2. The sum of the cell counts of the chunks of the spatial strategy should
  equal the cell count of the chunk of strategy "all". In the code the spatial strategy
  calls \<open>_count_selection\<close> without an indexer, which raises NotImplementedError before
  the first chunk: on the example data object, whose single "all" chunk counts 4096
  cells, the spatial strategy yields no chunk and ends with that exception.
\<close>

theorem chunk_spatial_not_implemented:
  "chunk_spatial example_api (\<lambda>f. 0) (\<lambda>f n. f) example_dobj 0 None []
     = ([], Some NotImplementedError)
   \<and> map data_size (fst (chunk_all example_dobj False None)) = [Some 4096]"
proof -
  have "chunk_objs example_dobj \<noteq> []"
    by (simp add: chunk_objs_def example_dobj_def example_files_def)
  then show ?thesis
    using chunk_spatial_raises[of example_dobj None]
    by (simp add: chunk_all_def example_dobj_def)
qed

subsection \<open>Point location\<close>

text \<open>
  Claim C7. When the three coordinate sequences are not all of the same length,
  \<open>_find_points\<close> raises AssertionError at once: the result is the error, and the index
  is unchanged, so no tree was built or searched. The statement holds for every search
  function.
\<close>

theorem find_points_length_mismatch:
  assumes "\<not> (length x = length y \<and> length y = length z)"
  shows "find_points search s x y z = (Inl AssertionError, s)"
  using assms by (simp add: find_points_def)

theorem find_points_length_mismatch_witness:
  "\<not> (length [0::real] = length ([]::real list) \<and> length ([]::real list) = length [1::real])
   \<and> find_points (\<lambda>t x y z. []) example_index [0] [] [1] = (Inl AssertionError, example_index)"
  using find_points_length_mismatch[of "[0::real]" "[]" "[1]" "\<lambda>t x y z. []" example_index]
  by simp

subsection \<open>Edge locking\<close>

lemma lock_grid_idem: "lock_grid dle (lock_grid dle g) = lock_grid dle g"
  by (simp add: lock_grid_def get_global_startindex_def Let_def)

lemma lock_loop_succeeds:
  "i + n \<le> length (grid_left_edge s) \<Longrightarrow> i + n \<le> length (grid_right_edge s) \<Longrightarrow>
   \<exists>s'. lock_loop i n s = Inr s'"
proof (induction n arbitrary: i s)
  case 0
  then show ?case by simp
next
  case (Suc n)
  then show ?case by (simp add: Let_def)
qed

lemma lock_loop_frame:
  "lock_loop i n s = Inr s' \<Longrightarrow>
     length (grids s') = length (grids s) \<and> domain_left_edge s' = domain_left_edge s
     \<and> length (grid_left_edge s') = length (grid_left_edge s)
     \<and> length (grid_right_edge s') = length (grid_right_edge s)
     \<and> grid_tree s' = grid_tree s
     \<and> i + n \<le> max i (length (grid_left_edge s)) \<and> i + n \<le> max i (length (grid_right_edge s))"
proof (induction n arbitrary: i s)
  case 0
  then show ?case by simp
next
  case (Suc n)
  let ?g = "lock_grid (domain_left_edge s) (grids s ! i)"
  let ?s3 = "s\<lparr>grids := (grids s)[i := ?g],
               grid_left_edge := (grid_left_edge s)[i := LeftEdge ?g],
               grid_right_edge := (grid_right_edge s)[i := RightEdge ?g]\<rparr>"
  from Suc.prems have a: "i < length (grid_left_edge s)" and b: "i < length (grid_right_edge s)"
    and c: "lock_loop (Suc i) n ?s3 = Inr s'"
    by (auto simp: Let_def split: if_splits)
  from Suc.IH[OF c] a b show ?case by auto
qed

lemma lock_loop_locks:
  "lock_loop i n s = Inr s' \<Longrightarrow> i + n \<le> length (grids s) \<Longrightarrow> locked_upto s i \<Longrightarrow>
     locked_upto s' (i + n)"
proof (induction n arbitrary: i s)
  case 0
  then show ?case by simp
next
  case (Suc n)
  let ?g = "lock_grid (domain_left_edge s) (grids s ! i)"
  let ?s3 = "s\<lparr>grids := (grids s)[i := ?g],
               grid_left_edge := (grid_left_edge s)[i := LeftEdge ?g],
               grid_right_edge := (grid_right_edge s)[i := RightEdge ?g]\<rparr>"
  from Suc.prems have a: "i < length (grid_left_edge s)" and b: "i < length (grid_right_edge s)"
    and c: "lock_loop (Suc i) n ?s3 = Inr s'"
    by (auto simp: Let_def split: if_splits)
  have i: "i < length (grids s)" using Suc.prems(2) by simp
  have "locked_upto ?s3 (Suc i)"
    unfolding locked_upto_def
  proof (intro allI impI)
    fix j assume "j < Suc i"
    then consider "j < i" | "j = i" by linarith
    then show "lock_grid (domain_left_edge ?s3) (grids ?s3 ! j) = grids ?s3 ! j
            \<and> grid_left_edge ?s3 ! j = LeftEdge (grids ?s3 ! j)
            \<and> grid_right_edge ?s3 ! j = RightEdge (grids ?s3 ! j)"
    proof cases
      case 1
      then show ?thesis using Suc.prems(3) by (simp add: locked_upto_def)
    next
      case 2
      then show ?thesis using a b i by (simp add: lock_grid_idem)
    qed
  qed
  moreover have "Suc i + n \<le> length (grids ?s3)" using Suc.prems(2) by simp
  ultimately have "locked_upto s' (Suc i + n)" using Suc.IH[OF c] by blast
  then show ?case by simp
qed

lemma lock_loop_fixed:
  "locked_upto s (i + n) \<Longrightarrow> i + n \<le> length (grid_left_edge s) \<Longrightarrow>
   i + n \<le> length (grid_right_edge s) \<Longrightarrow> lock_loop i n s = Inr s"
proof (induction n arbitrary: i)
  case 0
  then show ?case by simp
next
  case (Suc n)
  have f: "lock_grid (domain_left_edge s) (grids s ! i) = grids s ! i"
     "grid_left_edge s ! i = LeftEdge (grids s ! i)"
     "grid_right_edge s ! i = RightEdge (grids s ! i)"
    using Suc.prems(1) by (simp_all add: locked_upto_def)
  have "lock_loop (Suc i) n s = Inr s" using Suc.IH[of "Suc i"] Suc.prems by simp
  moreover have "s\<lparr>grids := (grids s)[i := grids s ! i],
               grid_left_edge := (grid_left_edge s)[i := LeftEdge (grids s ! i)],
               grid_right_edge := (grid_right_edge s)[i := RightEdge (grids s ! i)]\<rparr> = s"
    using f(2,3)[symmetric] by simp
  ultimately show ?case using Suc.prems f by (simp add: Let_def)
qed

lemma lock_loop_grid_tree: "lock_loop i n s = Inr s' \<Longrightarrow> grid_tree s' = grid_tree s"
  using lock_loop_frame by blast

lemma drifted_lock: "lock_grids_to_parents drifted_index = Inr locked_index"
  by (simp add: lock_grids_to_parents_def drifted_index_def locked_index_def drifted_grid_def
      lock_grid_def get_global_startindex_def vadd_def vmul_def vof_int_def Let_def)

lemma drifted_build: "get_grid_tree drifted_index = (Inr drifted_tree, built_index)"
  by (simp add: get_grid_tree_def build_grid_tree_def drifted_index_def drifted_grid_def
      drifted_tree_def built_index_def as_int32_def)

lemma built_lock: "lock_grids_to_parents built_index = Inr relocked_index"
  by (simp add: lock_grids_to_parents_def drifted_index_def locked_index_def drifted_grid_def
      built_index_def relocked_index_def
      lock_grid_def get_global_startindex_def vadd_def vmul_def vof_int_def Let_def)

text \<open>
  Claim C3. \<open>lock_grids_to_parents\<close> is idempotent: on an index whose edge arrays have a
  row for every grid it succeeds, and applied to its own result it returns that result
  unchanged, so the edges of every grid and both edge arrays are the same after two
  applications as after one. The proof uses no law of arithmetic: the second run
  computes the same expressions from the same start indices and cell widths.
\<close>

theorem lock_grids_to_parents_idempotent:
  assumes "length (grids s) \<le> length (grid_left_edge s)"
      and "length (grids s) \<le> length (grid_right_edge s)"
  shows "\<exists>s'. lock_grids_to_parents s = Inr s' \<and> lock_grids_to_parents s' = Inr s'"
proof -
  obtain s' where s': "lock_loop 0 (length (grids s)) s = Inr s'"
    using lock_loop_succeeds[of 0 "length (grids s)" s] assms by auto
  have fr: "length (grids s') = length (grids s)"
     "length (grid_left_edge s') = length (grid_left_edge s)"
     "length (grid_right_edge s') = length (grid_right_edge s)"
    using lock_loop_frame[OF s'] by simp_all
  have "locked_upto s' (0 + length (grids s))"
    using lock_loop_locks[OF s'] by (simp add: locked_upto_def)
  then have "lock_loop 0 (length (grids s')) s' = Inr s'"
    using lock_loop_fixed[of s' 0 "length (grids s')"] fr assms by simp
  then show ?thesis using s' by (simp add: lock_grids_to_parents_def)
qed

theorem lock_grids_to_parents_idempotent_witness:
  "length (grids drifted_index) \<le> length (grid_left_edge drifted_index)
   \<and> length (grids drifted_index) \<le> length (grid_right_edge drifted_index)
   \<and> lock_grids_to_parents drifted_index = Inr locked_index
   \<and> lock_grids_to_parents locked_index = Inr locked_index"
proof -
  have a: "length (grids drifted_index) \<le> length (grid_left_edge drifted_index)"
    and b: "length (grids drifted_index) \<le> length (grid_right_edge drifted_index)"
    by (simp_all add: drifted_index_def)
  show ?thesis
    using a b drifted_lock lock_grids_to_parents_idempotent[OF a b] by auto
qed

text \<open>
  Claim C4, as amended. \<open>lock_grids_to_parents\<close> rewrites the edges of every grid and the
  rows of the two edge arrays, and leaves the memoized tree as it is: after it, the next
  access to the tree returns the tree that was memoized before, and builds nothing.
\<close>

theorem lock_keeps_memoized_tree:
  assumes "grid_tree s = Some t" and "lock_grids_to_parents s = Inr s'"
  shows "get_grid_tree s' = (Inr t, s')
       \<and> (\<forall>i<length (grids s'). grid_left_edge s' ! i = LeftEdge (grids s' ! i)
                                \<and> grid_right_edge s' ! i = RightEdge (grids s' ! i))"
proof -
  have l: "lock_loop 0 (length (grids s)) s = Inr s'"
    using assms(2) by (simp add: lock_grids_to_parents_def)
  have "grid_tree s' = Some t" using lock_loop_grid_tree[OF l] assms(1) by simp
  then have a: "get_grid_tree s' = (Inr t, s')" by (simp add: get_grid_tree_def)
  have "locked_upto s' (0 + length (grids s))"
    using lock_loop_locks[OF l] by (simp add: locked_upto_def)
  moreover have "length (grids s') = length (grids s)" using lock_loop_frame[OF l] by simp
  ultimately show ?thesis using a by (simp add: locked_upto_def)
qed

theorem lock_keeps_memoized_tree_witness:
  "grid_tree built_index = Some drifted_tree
   \<and> lock_grids_to_parents built_index = Inr relocked_index
   \<and> get_grid_tree relocked_index = (Inr drifted_tree, relocked_index)
   \<and> grid_left_edge relocked_index ! 0 = LeftEdge (grids relocked_index ! 0)"
proof -
  have g: "grid_tree built_index = Some drifted_tree" by (simp add: built_index_def)
  have n: "0 < length (grids relocked_index)"
    by (simp add: relocked_index_def locked_index_def)
  show ?thesis using g built_lock n lock_keeps_memoized_tree[OF g built_lock] by simp
qed

text \<open>
  Claim C4 as stated, that locking invalidates the memoized tree, fails. The index of
  one grid with drifted edges, its tree built and memoized: locking changes the edge
  arrays, and the next access returns the memoized tree, which differs from the tree
  that would be built from the relocked edges.
\<close>

theorem lock_invalidates_tree_counterexample:
  "get_grid_tree drifted_index = (Inr drifted_tree, built_index)
   \<and> lock_grids_to_parents built_index = Inr relocked_index
   \<and> grid_left_edge relocked_index \<noteq> grid_left_edge built_index
   \<and> fst (get_grid_tree relocked_index) = Inr drifted_tree
   \<and> build_grid_tree relocked_index \<noteq> Inr drifted_tree"
  using drifted_build built_lock
  by (simp add: get_grid_tree_def build_grid_tree_def relocked_index_def locked_index_def
      drifted_index_def drifted_grid_def drifted_tree_def built_index_def as_int32_def)

end
